theory Spec2Isabelle
  imports Complex_Main "HOL-Library.AList"
begin

section \<open>Python values\<close>

text \<open>
  Values decoded from JSON, and the payloads of capability results, are Python objects of
  the types \<open>NoneType\<close>, \<open>bool\<close>, \<open>int\<close>, \<open>float\<close>, \<open>str\<close>, \<open>list\<close> and \<open>dict\<close>.
  A float is a finite number, an infinity or NaN; a finite float is represented by its
  value on the real line (rounding is not represented, comparisons are exact on the
  values). A \<open>dict\<close> keeps insertion order and is an association list with distinct keys.
  Strings are lists of code points below 256.
\<close>

datatype pyfloat = Fin real | PosInf | NegInf | NaN

datatype json =
    JNull
  | JBool bool
  | JInt int
  | JFloat pyfloat
  | JStr string
  | JList "json list"
  | JDict "(string \<times> json) list"

text \<open>
  Exceptions carry their class and the text that \<open>str(e)\<close> gives. The last three classes
  derive from \<open>BaseException\<close> but not from \<open>Exception\<close> (\<open>asyncio.CancelledError\<close>,
  \<open>KeyboardInterrupt\<close>, \<open>SystemExit\<close>); \<open>OtherException\<close> stands for every other subclass
  of \<open>Exception\<close>. A handler \<open>except Exception\<close> catches exactly the exceptions for which
  \<open>is_Exception\<close> holds, and the others pass through it.
\<close>

datatype exn_class =
    AttributeError | TypeError | ValueError | OverflowError | ValidationError | OtherException
  | CancelledError | KeyboardInterrupt | SystemExit

datatype exn = Exn exn_class string

fun exn_str :: "exn \<Rightarrow> string" where
  "exn_str (Exn _ msg) = msg"

fun is_Exception_class :: "exn_class \<Rightarrow> bool" where
  "is_Exception_class CancelledError = False"
| "is_Exception_class KeyboardInterrupt = False"
| "is_Exception_class SystemExit = False"
| "is_Exception_class _ = True"

fun is_Exception :: "exn \<Rightarrow> bool" where
  "is_Exception (Exn cls msg) = is_Exception_class cls"

text \<open>
  What leaves a handler \<open>except Exception\<close> that only logs: nothing when the exception is
  caught, the exception itself when it is not.
\<close>

definition except_Exception :: "exn \<Rightarrow> exn option" where
  "except_Exception e = (if is_Exception e then None else Some e)"

fun type_name :: "json \<Rightarrow> string" where
  "type_name JNull = ''NoneType''"
| "type_name (JBool _) = ''bool''"
| "type_name (JInt _) = ''int''"
| "type_name (JFloat _) = ''float''"
| "type_name (JStr _) = ''str''"
| "type_name (JList _) = ''list''"
| "type_name (JDict _) = ''dict''"

text \<open>Truth value of an object, as \<open>if x\<close> and \<open>not x\<close> test it.\<close>

fun py_truthy :: "json \<Rightarrow> bool" where
  "py_truthy JNull = False"
| "py_truthy (JBool b) = b"
| "py_truthy (JInt i) = (i \<noteq> 0)"
| "py_truthy (JFloat (Fin r)) = (r \<noteq> 0)"
| "py_truthy (JFloat _) = True"
| "py_truthy (JStr s) = (s \<noteq> [])"
| "py_truthy (JList xs) = (xs \<noteq> [])"
| "py_truthy (JDict kvs) = (kvs \<noteq> [])"

text \<open>\<open>x.get(key, default)\<close>: only a dict has the method.\<close>

fun py_get :: "json \<Rightarrow> string \<Rightarrow> json \<Rightarrow> exn + json" where
  "py_get (JDict kvs) k d = Inr (case map_of kvs k of None \<Rightarrow> d | Some v \<Rightarrow> v)"
| "py_get x k d =
     Inl (Exn AttributeError ([CHR 0x27] @ type_name x @ [CHR 0x27] @ '' object has no attribute '' @ [CHR 0x27] @ ''get'' @ [CHR 0x27]))"

text \<open>\<open>for a in x\<close>: a list gives its items, a string its characters, a dict its keys.\<close>

fun py_iter :: "json \<Rightarrow> exn + json list" where
  "py_iter (JList xs) = Inr xs"
| "py_iter (JStr s) = Inr (map (\<lambda>c. JStr [c]) s)"
| "py_iter (JDict kvs) = Inr (map (\<lambda>kv. JStr (fst kv)) kvs)"
| "py_iter x =
     Inl (Exn TypeError ([CHR 0x27] @ type_name x @ [CHR 0x27] @ '' object is not iterable''))"

fun is_dict :: "json \<Rightarrow> bool" where
  "is_dict (JDict _) = True"
| "is_dict _ = False"

section \<open>Strings and the two search patterns\<close>

text \<open>
  \<open>str.isspace\<close> and the pattern \<open>\s\<close> accept the same characters; below 256 they are
  TAB, LF, VT, FF, CR, FS, GS, RS, US, space, NEL and NBSP.
\<close>

definition is_space :: "char \<Rightarrow> bool" where
  "is_space c \<longleftrightarrow> c \<in> set [CHR 0x09, CHR 0x0A, CHR 0x0B, CHR 0x0C, CHR 0x0D,
       CHR 0x1C, CHR 0x1D, CHR 0x1E, CHR 0x1F, CHR 0x20, CHR 0x85, CHR 0xA0]"

definition strip :: "string \<Rightarrow> string" where
  "strip s = rev (dropWhile is_space (rev (dropWhile is_space s)))"

fun starts_with :: "string \<Rightarrow> string \<Rightarrow> bool" where
  "starts_with s [] = True"
| "starts_with [] (p # ps) = False"
| "starts_with (c # cs) (p # ps) = (c = p \<and> starts_with cs ps)"

abbreviation fence :: string where
  "fence \<equiv> [CHR 0x60, CHR 0x60, CHR 0x60]"

text \<open>
  The first pattern of \<open>_extract_json\<close> is: a fence of three backquotes, an optional
  \<open>json\<close>, \<open>\s*\<close>, the group \<open>(\{.*?\})\<close>, \<open>\s*\<close> and a fence, where the dot also matches
  a newline. \<open>re.search\<close> takes the leftmost start at which the pattern matches. At a start
  the greedy \<open>\s*\<close> must take the whole run of spaces (the next character has to be the
  brace, respectively the backquote), and the lazy \<open>.*?\<close> ends at the first closing brace
  after which spaces and a fence follow.
\<close>

definition fence_close :: "string \<Rightarrow> bool" where
  "fence_close r = starts_with (dropWhile is_space r) fence"

fun lazy_object :: "string \<Rightarrow> string option" where
  "lazy_object [] = None"
| "lazy_object (c # cs) =
     (if c = CHR 0x7D \<and> fence_close cs then Some [c]
      else map_option ((#) c) (lazy_object cs))"

definition fence_match_here :: "string \<Rightarrow> string option" where
  "fence_match_here s =
     (if \<not> starts_with s fence then None
      else let r = drop 3 s;
               r' = (if starts_with r ''json'' then drop 4 r else r)
           in case dropWhile is_space r' of
                [] \<Rightarrow> None
              | c # cs \<Rightarrow> if c = CHR 0x7B then map_option ((#) c) (lazy_object cs) else None)"

fun fence_search :: "string \<Rightarrow> string option" where
  "fence_search [] = None"
| "fence_search (c # cs) =
     (case fence_match_here (c # cs) of
        Some g \<Rightarrow> Some g
      | None \<Rightarrow> fence_search cs)"

text \<open>
  The second pattern is \<open>\{.*\}\<close> with a greedy dot: the match starts at the first opening
  brace and ends at the last closing brace after it.
\<close>

definition brace_search :: "string \<Rightarrow> string option" where
  "brace_search s =
     (case dropWhile (\<lambda>c. c \<noteq> CHR 0x7B) s of
        [] \<Rightarrow> None
      | c # cs \<Rightarrow>
          if CHR 0x7D \<in> set cs
          then Some (c # rev (dropWhile (\<lambda>c. c \<noteq> CHR 0x7D) (rev cs)))
          else None)"

section \<open>The outside world\<close>

text \<open>
  The language model and the capabilities are outside the program and not deterministic.
  They are oracles indexed by a logical clock, the number of language-model calls made so
  far: \<open>generate_content env k\<close> is the outcome of call number \<open>k\<close>, whatever the prompt
  was (the prompt is a function of the earlier outcomes), and \<open>tool_execute env k\<close> is the
  outcome of the capability call made in the iteration of call \<open>k\<close>. The functions of the
  Python library the code calls are parameters as well.
\<close>

datatype llm_reply = LLMText string | LLMFault exn

record ToolResult =
  success :: bool
  data :: json
  error :: "string option"

datatype tool_outcome = Returns ToolResult | Raises exn

record env =
  json_loads :: "string \<Rightarrow> json option"
  json_dumps :: "json \<Rightarrow> string"
  py_str :: "json \<Rightarrow> string"
  float_of_str :: "string \<Rightarrow> pyfloat option"
  md5_hexdigest :: "string \<Rightarrow> string"
  str_upper :: "string \<Rightarrow> string"
  generate_content :: "nat \<Rightarrow> llm_reply"
  tool_execute :: "nat \<Rightarrow> string \<Rightarrow> (string \<times> json) list \<Rightarrow> tool_outcome"
  utcnow :: "nat \<Rightarrow> real"

section \<open>Extraction of JSON from a response\<close>

text \<open>
  \<open>_extract_json\<close> of \<open>app/agent/react.py\<close> (and its copy in \<open>app/agent/reflection.py\<close>).
  \<open>json_loads env s = None\<close> stands for \<open>JSONDecodeError\<close>; the Python \<open>None\<close> the function
  returns at the end is \<open>JNull\<close>.
\<close>

definition fenced_tier :: "env \<Rightarrow> string \<Rightarrow> json option" where
  "fenced_tier env txt = (case fence_search txt of None \<Rightarrow> None | Some g \<Rightarrow> json_loads env g)"

definition whole_tier :: "env \<Rightarrow> string \<Rightarrow> json option" where
  "whole_tier env txt = json_loads env (strip txt)"

definition braces_tier :: "env \<Rightarrow> string \<Rightarrow> json option" where
  "braces_tier env txt = (case brace_search txt of None \<Rightarrow> None | Some g \<Rightarrow> json_loads env g)"

definition extract_json :: "env \<Rightarrow> string \<Rightarrow> json" where
  "extract_json env txt =
     (case fenced_tier env txt of
        Some v \<Rightarrow> v
      | None \<Rightarrow>
         (case whole_tier env txt of
            Some v \<Rightarrow> v
          | None \<Rightarrow>
             (case braces_tier env txt of
                Some v \<Rightarrow> v
              | None \<Rightarrow> JNull)))"

section \<open>A reference decoder for concrete inputs\<close>

text \<open>
  The theorems below hold for every behaviour of \<open>json.loads\<close>. To run the model on a
  concrete response a decoder is needed; this one follows the grammar \<open>json.loads\<close>
  accepts (objects, arrays, strings with the simple escapes, numbers, \<open>true\<close>, \<open>false\<close>,
  \<open>null\<close>, \<open>NaN\<close> and the infinities; white space is space, TAB, LF and CR). It does not
  decode \<open>\uXXXX\<close> escapes and answers \<open>None\<close> on them. The first argument of the scanning
  functions bounds the number of nested calls.
\<close>

definition json_ws :: "char \<Rightarrow> bool" where
  "json_ws c \<longleftrightarrow> c \<in> set [CHR 0x20, CHR 0x09, CHR 0x0A, CHR 0x0D]"

definition skip_ws :: "string \<Rightarrow> string" where
  "skip_ws s = dropWhile json_ws s"

definition is_digit :: "char \<Rightarrow> bool" where
  "is_digit c \<longleftrightarrow> c \<in> set ''0123456789''"

definition digit_val :: "char \<Rightarrow> nat" where
  "digit_val c = of_char c - 48"

definition nat_of_digits :: "string \<Rightarrow> nat" where
  "nat_of_digits ds = foldl (\<lambda>n c. 10 * n + digit_val c) 0 ds"

definition unescape :: "char \<Rightarrow> char option" where
  "unescape c =
     (if c = CHR 0x22 \<or> c = CHR 0x5C \<or> c = CHR ''/'' then Some c
      else if c = CHR ''b'' then Some (CHR 0x08)
      else if c = CHR ''f'' then Some (CHR 0x0C)
      else if c = CHR ''n'' then Some (CHR 0x0A)
      else if c = CHR ''r'' then Some (CHR 0x0D)
      else if c = CHR ''t'' then Some (CHR 0x09)
      else None)"

fun scan_string :: "string \<Rightarrow> (string \<times> string) option" where
  "scan_string [] = None"
| "scan_string [c] = (if c = CHR 0x22 then Some ([], []) else None)"
| "scan_string (c # d # cs) =
     (if c = CHR 0x22 then Some ([], d # cs)
      else if c = CHR 0x5C then
        (case unescape d of
           None \<Rightarrow> None
         | Some u \<Rightarrow> map_option (\<lambda>(str, r). (u # str, r)) (scan_string cs))
      else if (of_char c :: nat) < 32 then None
      else map_option (\<lambda>(str, r). (c # str, r)) (scan_string (d # cs)))"

definition scan_exponent :: "string \<Rightarrow> ((bool \<times> nat) \<times> string) option" where
  "scan_exponent s =
     (case s of
        [] \<Rightarrow> None
      | e # r \<Rightarrow>
          if e \<noteq> CHR ''e'' \<and> e \<noteq> CHR ''E'' then None
          else let (neg, r1) = (case r of
                      [] \<Rightarrow> (False, r)
                    | g # r' \<Rightarrow> if g = CHR ''-'' then (True, r')
                               else if g = CHR ''+'' then (False, r') else (False, r))
               in if takeWhile is_digit r1 = [] then None
                  else Some ((neg, nat_of_digits (takeWhile is_digit r1)), dropWhile is_digit r1))"

definition scan_fraction :: "string \<Rightarrow> (string \<times> string) option" where
  "scan_fraction s =
     (case s of
        [] \<Rightarrow> None
      | p # r \<Rightarrow>
          if p = CHR ''.'' \<and> takeWhile is_digit r \<noteq> []
          then Some (takeWhile is_digit r, dropWhile is_digit r) else None)"

definition scan_number :: "string \<Rightarrow> (json \<times> string) option" where
  "scan_number s =
     (let (neg, s1) = (case s of [] \<Rightarrow> (False, s) | c # cs \<Rightarrow> if c = CHR ''-'' then (True, cs) else (False, s));
          ip = (case s1 of
                  [] \<Rightarrow> None
                | c # cs \<Rightarrow> if c = CHR ''0'' then Some ([c], cs)
                           else if is_digit c then Some (takeWhile is_digit s1, dropWhile is_digit s1)
                           else None)
      in case ip of
           None \<Rightarrow> None
         | Some (ds, r) \<Rightarrow>
            (let fr = scan_fraction r;
                 r1 = (case fr of None \<Rightarrow> r | Some (_, r') \<Rightarrow> r');
                 ex = scan_exponent r1;
                 r2 = (case ex of None \<Rightarrow> r1 | Some (_, r') \<Rightarrow> r');
                 sgn = (if neg then - 1 else 1)
             in if fr = None \<and> ex = None then Some (JInt (sgn * int (nat_of_digits ds)), r2)
                else let m = real (nat_of_digits ds)
                           + (case fr of None \<Rightarrow> 0
                              | Some (fs, _) \<Rightarrow> real (nat_of_digits fs) / 10 ^ length fs);
                         v = (case ex of None \<Rightarrow> m
                              | Some ((eneg, e), _) \<Rightarrow> if eneg then m / 10 ^ e else m * 10 ^ e)
                     in Some (JFloat (Fin (sgn * v)), r2)))"

definition dict_of_pairs :: "(string \<times> json) list \<Rightarrow> (string \<times> json) list" where
  "dict_of_pairs kvs = foldl (\<lambda>d kv. AList.update (fst kv) (snd kv) d) [] kvs"

fun scan_value :: "nat \<Rightarrow> string \<Rightarrow> (json \<times> string) option"
  and scan_array :: "nat \<Rightarrow> string \<Rightarrow> (json list \<times> string) option"
  and scan_object :: "nat \<Rightarrow> string \<Rightarrow> ((string \<times> json) list \<times> string) option"
where
  "scan_value 0 s = None"
| "scan_value (Suc n) [] = None"
| "scan_value (Suc n) (c # cs) =
     (if c = CHR 0x22 then map_option (\<lambda>(str, r). (JStr str, r)) (scan_string cs)
      else if c = CHR 0x7B then
        (case skip_ws cs of
           [] \<Rightarrow> None
         | d # ds \<Rightarrow>
             if d = CHR 0x7D then Some (JDict [], ds)
             else map_option (\<lambda>(kvs, r). (JDict (dict_of_pairs kvs), r)) (scan_object n (d # ds)))
      else if c = CHR ''['' then
        (case skip_ws cs of
           [] \<Rightarrow> None
         | d # ds \<Rightarrow>
             if d = CHR '']'' then Some (JList [], ds)
             else map_option (\<lambda>(vs, r). (JList vs, r)) (scan_array n (d # ds)))
      else if starts_with (c # cs) ''null'' then Some (JNull, drop 3 cs)
      else if starts_with (c # cs) ''true'' then Some (JBool True, drop 3 cs)
      else if starts_with (c # cs) ''false'' then Some (JBool False, drop 4 cs)
      else if starts_with (c # cs) ''NaN'' then Some (JFloat NaN, drop 2 cs)
      else if starts_with (c # cs) ''Infinity'' then Some (JFloat PosInf, drop 7 cs)
      else if starts_with (c # cs) ''-Infinity'' then Some (JFloat NegInf, drop 8 cs)
      else scan_number (c # cs))"
| "scan_array 0 s = None"
| "scan_array (Suc n) s =
     (case scan_value n s of
        None \<Rightarrow> None
      | Some (v, r) \<Rightarrow>
         (case skip_ws r of
            [] \<Rightarrow> None
          | d # ds \<Rightarrow>
              if d = CHR '']'' then Some ([v], ds)
              else if d = CHR '','' then map_option (\<lambda>(vs, r'). (v # vs, r')) (scan_array n (skip_ws ds))
              else None))"
| "scan_object 0 s = None"
| "scan_object (Suc n) [] = None"
| "scan_object (Suc n) (q # cs) =
     (if q \<noteq> CHR 0x22 then None
      else case scan_string cs of
        None \<Rightarrow> None
      | Some (k, r) \<Rightarrow>
         (case skip_ws r of
            [] \<Rightarrow> None
          | col # r1 \<Rightarrow>
              if col \<noteq> CHR '':'' then None
              else case scan_value n (skip_ws r1) of
                None \<Rightarrow> None
              | Some (v, r2) \<Rightarrow>
                 (case skip_ws r2 of
                    [] \<Rightarrow> None
                  | d # ds \<Rightarrow>
                      if d = CHR 0x7D then Some ([(k, v)], ds)
                      else if d = CHR '','' then
                        map_option (\<lambda>(kvs, r'). ((k, v) # kvs, r')) (scan_object n (skip_ws ds))
                      else None)))"

definition ref_loads :: "string \<Rightarrow> json option" where
  "ref_loads s =
     (case scan_value (Suc (length s)) (skip_ws s) of
        None \<Rightarrow> None
      | Some (v, r) \<Rightarrow> if skip_ws r = [] then Some v else None)"

section \<open>Formatting helpers\<close>

fun join :: "string \<Rightarrow> string list \<Rightarrow> string" where
  "join sep [] = []"
| "join sep [x] = x"
| "join sep (x # y # ys) = x @ sep @ join sep (y # ys)"

fun digits :: "nat \<Rightarrow> string" where
  "digits n =
     (if n < 10 then [''0123456789'' ! n]
      else digits (n div 10) @ [''0123456789'' ! (n mod 10)])"

declare digits.simps [simp del]

definition str_int :: "int \<Rightarrow> string" where
  "str_int i = (if i < 0 then CHR ''-'' # digits (nat (- i)) else digits (nat i))"

definition quoted :: "string \<Rightarrow> string" where
  "quoted s = [CHR 0x27] @ s @ [CHR 0x27]"

section \<open>Capability Registry (\<open>app/tools/registry.py\<close>)\<close>

text \<open>
  A capability is known to the model by its \<open>name\<close>; its \<open>execute\<close> method is the oracle
  \<open>tool_execute\<close>, its description and parameter schema only feed the prompt. The
  registry's \<open>_tools\<close> is a dict from names to capabilities, in insertion order.
\<close>

record BaseTool =
  name :: string

type_synonym registry = "(string \<times> BaseTool) list"

definition register :: "registry \<Rightarrow> BaseTool \<Rightarrow> registry" where
  "register reg tool = AList.update (name tool) tool reg"

definition registry_get :: "registry \<Rightarrow> string \<Rightarrow> BaseTool option" where
  "registry_get reg n = map_of reg n"

definition list_tools :: "registry \<Rightarrow> string list" where
  "list_tools reg = map fst reg"

text \<open>
  The body of \<open>ToolRegistry.execute(self, tool_name, **kwargs)\<close>, for a bound name and
  keyword map. \<open>Inl\<close> is an exception leaving the method; the \<open>try\<close> around the
  capability call has the handler \<open>except Exception\<close>, which an exception outside
  \<open>Exception\<close> passes.
\<close>

definition registry_execute ::
  "env \<Rightarrow> nat \<Rightarrow> registry \<Rightarrow> string \<Rightarrow> (string \<times> json) list \<Rightarrow> exn + ToolResult" where
  "registry_execute env c reg tool_name kwargs =
     (case registry_get reg tool_name of
        None \<Rightarrow>
          Inr \<lparr>success = False, data = JNull,
               error = Some (''Tool '' @ quoted tool_name @ '' not found. Available tools: ''
                             @ join '', '' (list_tools reg))\<rparr>
      | Some tool \<Rightarrow>
         (case tool_execute env c (name tool) kwargs of
            Returns result \<Rightarrow> Inr result
          | Raises e \<Rightarrow>
              if is_Exception e then
                Inr \<lparr>success = False, data = JNull,
                     error = Some (''Tool execution failed: '' @ exn_str e)\<rparr>
              else Inl e))"

text \<open>\<open>name in registry\<close>: the dict hashes the operand, and a list or a dict is unhashable.\<close>

fun registry_contains :: "registry \<Rightarrow> json \<Rightarrow> exn + bool" where
  "registry_contains reg (JStr n) = Inr (n \<in> set (list_tools reg))"
| "registry_contains reg (JList xs) = Inl (Exn TypeError (''unhashable type: '' @ quoted ''list''))"
| "registry_contains reg (JDict kvs) = Inl (Exn TypeError (''unhashable type: '' @ quoted ''dict''))"
| "registry_contains reg x = Inr False"

definition register_all_tools :: "registry \<Rightarrow> registry" where
  "register_all_tools reg =
     register (register (register (register reg
       \<lparr>name = ''ticker_extractor''\<rparr>)
       \<lparr>name = ''news_retriever''\<rparr>)
       \<lparr>name = ''sentiment_analyzer''\<rparr>)
       \<lparr>name = ''findata_fetcher''\<rparr>"

text \<open>
  The call \<open>registry.execute(action, **action_input)\<close> binds its arguments before the
  body runs: the operand of \<open>**\<close> must be a mapping, and none of its keys may name a
  parameter that is already bound (\<open>self\<close>, \<open>tool_name\<close>). The message is the one of
  CPython 3.10 and later.
\<close>

fun bind_kwargs :: "json \<Rightarrow> exn + (string \<times> json) list" where
  "bind_kwargs (JDict kvs) =
     (case filter (\<lambda>k. k = ''self'' \<or> k = ''tool_name'') (map fst kvs) of
        [] \<Rightarrow> Inr kvs
      | k # _ \<Rightarrow>
          Inl (Exn TypeError (''ToolRegistry.execute() got multiple values for argument '' @ quoted k)))"
| "bind_kwargs x =
     Inl (Exn TypeError (''app.tools.registry.ToolRegistry.execute() argument after ** must be a mapping, not ''
                         @ type_name x))"

section \<open>Reasoning-Acting Loop (\<open>app/agent/react.py\<close>)\<close>

record ReActStep =
  step_number :: int
  thought :: json
  action :: json
  action_input :: json
  observation :: "string option"
  step_error :: "string option"

text \<open>
  \<open>list(set(tools_used))\<close> keeps one copy of each name, in an order Python does not
  specify; the model uses \<open>remdups\<close>, and the theorems speak of membership only.
\<close>

record ReActResult =
  result_success :: bool
  steps :: "ReActStep list"
  final_answer :: "json option"
  tools_used :: "string list"
  sources :: "json list"
  result_error :: "string option"

definition format_observation :: "env \<Rightarrow> json \<Rightarrow> string" where
  "format_observation env result_data =
     (if is_dict result_data then json_dumps env result_data else py_str env result_data)"

text \<open>The locals of \<open>run_react_loop\<close> that an iteration changes, and the clock.\<close>

record loop_state =
  clock :: nat
  st_steps :: "ReActStep list"
  st_tools_used :: "string list"
  st_sources :: "json list"

text \<open>\<open>for article in articles: if url := article.get("url"): sources.append(url)\<close>\<close>

fun collect_urls :: "json list \<Rightarrow> json list \<Rightarrow> exn option \<times> json list" where
  "collect_urls [] src = (None, src)"
| "collect_urls (article # rest) src =
     (case py_get article ''url'' JNull of
        Inl e \<Rightarrow> (Some e, src)
      | Inr url \<Rightarrow> collect_urls rest (if py_truthy url then src @ [url] else src))"

definition track_sources :: "json \<Rightarrow> json list \<Rightarrow> exn option \<times> json list" where
  "track_sources result_data src =
     (case py_get result_data ''articles'' (JList []) of
        Inl e \<Rightarrow> (Some e, src)
      | Inr articles \<Rightarrow>
         (case py_iter articles of
            Inl e \<Rightarrow> (Some e, src)
          | Inr items \<Rightarrow> collect_urls items src))"

definition track_usage :: "env \<Rightarrow> string \<Rightarrow> json \<Rightarrow> string list \<Rightarrow> exn + string list" where
  "track_usage env act result_data tu =
     (if act = ''ticker_extractor'' \<and> py_truthy result_data then
        (case py_get result_data ''method'' (JStr ''unknown'') of
           Inl e \<Rightarrow> Inl e
         | Inr method \<Rightarrow> Inr (tu @ [''ticker_extractor:'' @ py_str env method]))
      else Inr (tu @ [act]))"

text \<open>
  The body of the \<open>try\<close> of an iteration: what it has done to the step, to \<open>tools_used\<close> and
  to \<open>sources\<close> when it ends, and the exception it ends with, if any. What was appended
  before an exception stays appended.
\<close>

definition try_tool ::
  "env \<Rightarrow> registry \<Rightarrow> nat \<Rightarrow> string \<Rightarrow> json \<Rightarrow> ReActStep \<Rightarrow> string list \<Rightarrow> json list
     \<Rightarrow> exn option \<times> ReActStep \<times> string list \<times> json list" where
  "try_tool env reg c act inp step tu src =
     (case bind_kwargs inp of
        Inl e \<Rightarrow> (Some e, step, tu, src)
      | Inr kwargs \<Rightarrow>
        (case registry_execute env c reg act kwargs of
           Inl e \<Rightarrow> (Some e, step, tu, src)
         | Inr result \<Rightarrow>
          if success result then
            (let step1 = step\<lparr>observation := Some (format_observation env (data result))\<rparr> in
             case track_usage env act (data result) tu of
               Inl e \<Rightarrow> (Some e, step1, tu, src)
             | Inr tu1 \<Rightarrow>
                 if act = ''news_retriever'' \<and> py_truthy (data result) then
                   (case track_sources (data result) src of
                      (eo, src1) \<Rightarrow> (eo, step1, tu1, src1))
                 else (None, step1, tu1, src))
          else
            (None,
             step\<lparr>step_error := error result,
                  observation := Some (''Tool error: '' @ (case error result of None \<Rightarrow> ''None'' | Some m \<Rightarrow> m))\<rparr>,
             tu, src)))"

datatype iter_outcome = Continue | Return ReActResult | Raise exn

text \<open>
  One iteration of the \<open>for\<close> loop, from the language-model call to \<open>steps.append(step)\<close>.
  The prompt is not modelled: it only reaches the language model. \<open>Raise\<close> is an
  exception that no handler of the loop catches; both handlers of the loop are
  \<open>except Exception\<close>.
\<close>

definition react_iteration :: "env \<Rightarrow> registry \<Rightarrow> int \<Rightarrow> loop_state \<Rightarrow> iter_outcome \<times> loop_state" where
  "react_iteration env reg step_num st =
     (let st1 = st\<lparr>clock := Suc (clock st)\<rparr> in
      case generate_content env (clock st) of
        LLMFault e \<Rightarrow>
          if is_Exception e then
            (Return \<lparr>result_success = False, steps = st_steps st, final_answer = None,
                     tools_used = st_tools_used st, sources = st_sources st,
                     result_error = Some (''LLM call failed: '' @ exn_str e)\<rparr>, st1)
          else (Raise e, st1)
      | LLMText response \<Rightarrow>
         (let parsed = extract_json env response in
          if \<not> py_truthy parsed then (Continue, st1)
          else case py_get parsed ''thought'' (JStr []) of
            Inl e \<Rightarrow> (Raise e, st1)
          | Inr th \<Rightarrow>
          case py_get parsed ''action'' (JStr []) of
            Inl e \<Rightarrow> (Raise e, st1)
          | Inr act \<Rightarrow>
          case py_get parsed ''action_input'' (JDict []) of
            Inl e \<Rightarrow> (Raise e, st1)
          | Inr inp \<Rightarrow>
           (let step = \<lparr>step_number = step_num, thought = th, action = act, action_input = inp,
                        observation = None, step_error = None\<rparr> in
            if act = JStr ''final_answer'' then
              (Return \<lparr>result_success = True, steps = st_steps st @ [step], final_answer = Some inp,
                       tools_used = remdups (st_tools_used st), sources = st_sources st,
                       result_error = None\<rparr>, st1)
            else case registry_contains reg act of
              Inl e \<Rightarrow> (Raise e, st1)
            | Inr False \<Rightarrow>
               (let msg = ''Unknown tool: '' @ py_str env act @ ''. Available tools: ''
                          @ py_str env (JList (map JStr (list_tools reg)))
                in (Continue,
                    st1\<lparr>st_steps := st_steps st @ [step\<lparr>step_error := Some msg, observation := Some msg\<rparr>]\<rparr>))
            | Inr True \<Rightarrow>
               (case try_tool env reg (clock st) (case act of JStr a \<Rightarrow> a | _ \<Rightarrow> []) inp step
                       (st_tools_used st) (st_sources st) of
                  (eo, step1, tu, src) \<Rightarrow>
                    (case eo of
                       None \<Rightarrow>
                         (Continue,
                          st1\<lparr>st_steps := st_steps st @ [step1], st_tools_used := tu, st_sources := src\<rparr>)
                     | Some e \<Rightarrow>
                         if is_Exception e then
                           (Continue,
                            st1\<lparr>st_steps := st_steps st @
                                   [step1\<lparr>step_error := Some (exn_str e),
                                          observation := Some (''Tool execution failed: '' @ exn_str e)\<rparr>],
                                st_tools_used := tu, st_sources := src\<rparr>)
                         else (Raise e, st1))))))"

text \<open>
  The \<open>for step_num in range(1, max_steps + 1)\<close> loop over the step numbers that remain,
  and the return after it.
\<close>

fun react_steps ::
  "env \<Rightarrow> registry \<Rightarrow> int \<Rightarrow> int list \<Rightarrow> loop_state \<Rightarrow> (exn + ReActResult) \<times> loop_state" where
  "react_steps env reg max_steps [] st =
     (Inr \<lparr>result_success = False, steps = st_steps st, final_answer = None,
           tools_used = remdups (st_tools_used st), sources = st_sources st,
           result_error = Some (''Analysis incomplete after '' @ str_int max_steps @ '' steps'')\<rparr>, st)"
| "react_steps env reg max_steps (n # ns) st =
     (case react_iteration env reg n st of
        (Continue, st') \<Rightarrow> react_steps env reg max_steps ns st'
      | (Return r, st') \<Rightarrow> (Inr r, st')
      | (Raise e, st') \<Rightarrow> (Inl e, st'))"

text \<open>
  \<open>run_react_loop\<close>: \<open>reg0\<close> is the global registry before the call, \<open>c\<close> the clock. The
  result comes with the clock after the run. The parameters \<open>ticker\<close>, \<open>query\<close> and
  \<open>company_name\<close> only enter the prompt.
\<close>

definition run_react_loop :: "env \<Rightarrow> registry \<Rightarrow> int \<Rightarrow> nat \<Rightarrow> (exn + ReActResult) \<times> nat" where
  "run_react_loop env reg0 max_steps c =
     (case react_steps env (register_all_tools reg0) max_steps [1..max_steps]
             \<lparr>clock = c, st_steps = [], st_tools_used = [], st_sources = []\<rparr> of
        (out, st) \<Rightarrow> (out, clock st))"

section \<open>Floats\<close>

text \<open>The comparison \<open>a < b\<close> of two floats: false whenever one of them is NaN.\<close>

fun py_lt :: "pyfloat \<Rightarrow> pyfloat \<Rightarrow> bool" where
  "py_lt NaN _ = False"
| "py_lt _ NaN = False"
| "py_lt (Fin a) (Fin b) = (a < b)"
| "py_lt (Fin a) PosInf = True"
| "py_lt (Fin a) NegInf = False"
| "py_lt PosInf _ = False"
| "py_lt NegInf NegInf = False"
| "py_lt NegInf _ = True"

text \<open>\<open>a >= b\<close>, which is \<open>b <= a\<close>.\<close>

fun py_ge :: "pyfloat \<Rightarrow> pyfloat \<Rightarrow> bool" where
  "py_ge NaN _ = False"
| "py_ge _ NaN = False"
| "py_ge (Fin a) (Fin b) = (b \<le> a)"
| "py_ge PosInf _ = True"
| "py_ge NegInf NegInf = True"
| "py_ge NegInf _ = False"
| "py_ge (Fin a) NegInf = True"
| "py_ge (Fin a) PosInf = False"

text \<open>
  The builtins \<open>min(a, b)\<close> and \<open>max(a, b)\<close> keep the first argument unless the second is
  strictly smaller, respectively strictly larger.
\<close>

definition py_min :: "pyfloat \<Rightarrow> pyfloat \<Rightarrow> pyfloat" where
  "py_min a b = (if py_lt b a then b else a)"

definition py_max :: "pyfloat \<Rightarrow> pyfloat \<Rightarrow> pyfloat" where
  "py_max a b = (if py_lt a b then b else a)"

text \<open>
  \<open>float(x)\<close>. An int beyond the range of a double raises \<open>OverflowError\<close>; the string
  case is the library's \<open>float_of_str\<close>.
\<close>

fun py_float :: "env \<Rightarrow> json \<Rightarrow> exn + pyfloat" where
  "py_float env (JFloat f) = Inr f"
| "py_float env (JInt i) =
     (if \<bar>i\<bar> \<ge> 2 ^ 1024 - 2 ^ 970 then Inl (Exn OverflowError ''int too large to convert to float'')
      else Inr (Fin (real_of_int i)))"
| "py_float env (JBool b) = Inr (Fin (if b then 1 else 0))"
| "py_float env (JStr s) =
     (case float_of_str env s of
        None \<Rightarrow> Inl (Exn ValueError (''could not convert string to float: '' @ quoted s))
      | Some f \<Rightarrow> Inr f)"
| "py_float env x =
     Inl (Exn TypeError (''float() argument must be a string or a real number, not '' @ quoted (type_name x)))"

section \<open>Reflection Gate (\<open>app/agent/reflection.py\<close>)\<close>

record ReflectionResult =
  quality_score :: pyfloat
  is_acceptable :: json
  improvements :: "json list"
  refined_summary :: json

definition reflection_default :: ReflectionResult where
  "reflection_default =
     \<lparr>quality_score = Fin (1 / 2), is_acceptable = JBool True,
      improvements = [JStr ''Reflection assessment could not be completed''],
      refined_summary = JNull\<rparr>"

text \<open>
  The \<open>try\<close> of \<open>reflect_on_analysis\<close>: the verdict it returns, or the exception raised
  inside it. \<open>None\<close> is the case where the \<open>try\<close> ends without a return (nothing was
  extracted).
\<close>

definition reflect_try :: "env \<Rightarrow> pyfloat \<Rightarrow> nat \<Rightarrow> exn + ReflectionResult option" where
  "reflect_try env min_quality_score c =
     (case generate_content env c of
        LLMFault e \<Rightarrow> Inl e
      | LLMText response \<Rightarrow>
         (let parsed = extract_json env response in
          if py_truthy parsed then
            (case py_get parsed ''quality_score'' (JFloat (Fin (1 / 2))) of
               Inl e \<Rightarrow> Inl e
             | Inr qs \<Rightarrow>
            case py_float env qs of
               Inl e \<Rightarrow> Inl e
             | Inr q \<Rightarrow>
            case py_get parsed ''is_acceptable'' (JBool (py_ge q min_quality_score)) of
               Inl e \<Rightarrow> Inl e
             | Inr acc \<Rightarrow>
            case py_get parsed ''improvements'' (JList []) of
               Inl e \<Rightarrow> Inl e
             | Inr imp \<Rightarrow>
            case py_get parsed ''refined_summary'' JNull of
               Inl e \<Rightarrow> Inl e
             | Inr refined \<Rightarrow>
                 Inr (Some \<lparr>quality_score = q, is_acceptable = acc,
                            improvements = (case imp of JList xs \<Rightarrow> xs | _ \<Rightarrow> []),
                            refined_summary = refined\<rparr>))
          else Inr None))"

text \<open>
  \<open>reflect_on_analysis\<close>, with the clock after its one language-model call. The handler
  of the \<open>try\<close> is \<open>except Exception\<close>: an exception it catches is logged and the default
  verdict returned, any other leaves the function (\<open>Inl\<close>). The analysis the function is
  given (ticker, summary, score, findings, capabilities, source count) only enters the
  prompt.
\<close>

definition reflect_on_analysis :: "env \<Rightarrow> pyfloat \<Rightarrow> nat \<Rightarrow> (exn + ReflectionResult) \<times> nat" where
  "reflect_on_analysis env min_quality_score c =
     (case reflect_try env min_quality_score c of
        Inr (Some verdict) \<Rightarrow> (Inr verdict, Suc c)
      | Inr None \<Rightarrow> (Inr reflection_default, Suc c)
      | Inl e \<Rightarrow> if is_Exception e then (Inr reflection_default, Suc c) else (Inl e, Suc c))"

section \<open>Orchestrator (\<open>app/agent/orchestrator.py\<close>)\<close>

record AnalysisReport =
  company_ticker :: string
  analysis_summary :: string
  sentiment_score :: pyfloat
  key_findings :: "string list"
  report_tools_used :: "string list"
  citation_sources :: "string list"
  generated_at :: real

fun is_str :: "json \<Rightarrow> bool" where
  "is_str (JStr _) = True"
| "is_str _ = False"

fun the_str :: "json \<Rightarrow> string" where
  "the_str (JStr s) = s"
| "the_str _ = []"

text \<open>
  The constructor of \<open>AnalysisReport\<close> validates its fields (\<open>app/schemas/responses.py\<close>):
  the summary and every source must be a string, the score must satisfy \<open>ge=-1.0\<close> and
  \<open>le=1.0\<close>, the findings \<open>min_length=1\<close> and \<open>max_length=5\<close>.
\<close>

definition make_report ::
  "string \<Rightarrow> json \<Rightarrow> pyfloat \<Rightarrow> string list \<Rightarrow> string list \<Rightarrow> json list \<Rightarrow> real
     \<Rightarrow> exn + AnalysisReport" where
  "make_report tk summary score findings used srcs now =
     (if is_str summary \<and> py_ge score (Fin (- 1)) \<and> py_ge (Fin 1) score
         \<and> 1 \<le> length findings \<and> length findings \<le> 5 \<and> list_all is_str srcs
      then Inr \<lparr>company_ticker = tk, analysis_summary = the_str summary, sentiment_score = score,
                key_findings = findings, report_tools_used = used,
                citation_sources = map the_str srcs, generated_at = now\<rparr>
      else Inl (Exn ValidationError ''validation error for AnalysisReport''))"

definition clamp_sentiment :: "pyfloat \<Rightarrow> pyfloat" where
  "clamp_sentiment s = py_max (Fin (- 1)) (py_min (Fin 1) s)"

definition coerce_findings :: "env \<Rightarrow> json \<Rightarrow> string list" where
  "coerce_findings env kf =
     (case kf of
        JList xs \<Rightarrow> map (py_str env) (take 5 xs)
      | _ \<Rightarrow> map (py_str env) (take 5 [JStr (py_str env kf)]))"

definition findings_or_placeholder :: "string list \<Rightarrow> string list" where
  "findings_or_placeholder kf =
     (if kf \<noteq> [] then kf else [''Analysis completed but no specific findings extracted''])"

datatype attempt_outcome = Retry string | Done AnalysisReport | Fail exn

text \<open>
  The body of the \<open>for attempt\<close> loop of \<open>run_agent\<close>. The Loop and the Gate are the
  functions \<open>loop\<close> and \<open>gate\<close> of the clock. \<open>Retry\<close> is a \<open>continue\<close> with the new
  \<open>last_error\<close>, \<open>Fail\<close> an exception that leaves \<open>run_agent\<close>. The second component is
  what the Loop returned in this attempt.
\<close>

definition agent_attempt ::
  "env \<Rightarrow> (nat \<Rightarrow> (exn + ReActResult) \<times> nat) \<Rightarrow> (nat \<Rightarrow> (exn + ReflectionResult) \<times> nat)
     \<Rightarrow> string \<Rightarrow> bool \<Rightarrow> int \<Rightarrow> int \<Rightarrow> nat
     \<Rightarrow> (attempt_outcome \<times> (exn + ReActResult)) \<times> nat" where
  "agent_attempt env loop gate tk enable_reflection max_retries attempt c =
     (case loop c of (lr, c1) \<Rightarrow>
      (case lr of
         Inl e \<Rightarrow> ((Fail e, lr), c1)
       | Inr react_result \<Rightarrow>
          if \<not> result_success react_result then
            ((Retry (case result_error react_result of
                       None \<Rightarrow> ''ReAct loop failed''
                     | Some m \<Rightarrow> if m = [] then ''ReAct loop failed'' else m), lr), c1)
          else if \<not> (case final_answer react_result of None \<Rightarrow> False | Some f \<Rightarrow> py_truthy f) then
            ((Retry ''No final answer generated'', lr), c1)
          else
           (let final = (case final_answer react_result of None \<Rightarrow> JNull | Some f \<Rightarrow> f) in
            case py_get final ''analysis_summary'' (JStr []) of
              Inl e \<Rightarrow> ((Fail e, lr), c1)
            | Inr summary0 \<Rightarrow>
            case py_get final ''sentiment_score'' (JFloat (Fin 0)) of
              Inl e \<Rightarrow> ((Fail e, lr), c1)
            | Inr raw_score \<Rightarrow>
            case py_float env raw_score of
              Inl e \<Rightarrow> ((Fail e, lr), c1)
            | Inr score0 \<Rightarrow>
            case py_get final ''key_findings'' (JList []) of
              Inl e \<Rightarrow> ((Fail e, lr), c1)
            | Inr kf0 \<Rightarrow>
             (let score = clamp_sentiment score0;
                  findings = coerce_findings env kf0;
                  build = (\<lambda>summary c'.
                     (case make_report tk summary score (findings_or_placeholder findings)
                             (tools_used react_result) (sources react_result) (utcnow env c') of
                        Inl e \<Rightarrow> ((Fail e, lr), c')
                      | Inr report \<Rightarrow> ((Done report, lr), c')))
              in if enable_reflection then
                   (case gate c1 of
                      (Inl e, c2) \<Rightarrow> ((Fail e, lr), c2)
                    | (Inr reflection, c2) \<Rightarrow>
                       (let summary = (if py_truthy (refined_summary reflection)
                                          \<and> py_truthy (is_acceptable reflection)
                                       then refined_summary reflection else summary0)
                        in if \<not> py_truthy (is_acceptable reflection) \<and> attempt < max_retries then
                             ((Retry (''Quality score too low: '' @ py_str env (JFloat (quality_score reflection))), lr), c2)
                           else build summary c2))
                 else build summary0 c1))))"

text \<open>
  The \<open>for attempt in range(max_retries + 1)\<close> loop over the attempts that remain, and the
  \<open>raise ValueError\<close> after it. The third component of the result is a ghost: the list of
  what the Loop returned, one entry per run, in order.
\<close>

fun agent_attempts ::
  "env \<Rightarrow> (nat \<Rightarrow> (exn + ReActResult) \<times> nat) \<Rightarrow> (nat \<Rightarrow> (exn + ReflectionResult) \<times> nat)
     \<Rightarrow> string \<Rightarrow> bool \<Rightarrow> int \<Rightarrow> int list \<Rightarrow> string option \<Rightarrow> nat
     \<Rightarrow> (exn + AnalysisReport) \<times> nat \<times> (exn + ReActResult) list" where
  "agent_attempts env loop gate tk er max_retries [] last_error c =
     (Inl (Exn ValueError (''Analysis failed after '' @ str_int (max_retries + 1) @ '' attempts: ''
                           @ (case last_error of None \<Rightarrow> ''None'' | Some m \<Rightarrow> m))), c, [])"
| "agent_attempts env loop gate tk er max_retries (a # as) last_error c =
     (case agent_attempt env loop gate tk er max_retries a c of
        ((Retry cause, lr), c') \<Rightarrow>
          (case agent_attempts env loop gate tk er max_retries as (Some cause) c' of
             (out, c'', runs) \<Rightarrow> (out, c'', lr # runs))
      | ((Done report, lr), c') \<Rightarrow> (Inr report, c', [lr])
      | ((Fail e, lr), c') \<Rightarrow> (Inl e, c', [lr]))"

definition run_agent_with ::
  "env \<Rightarrow> (nat \<Rightarrow> (exn + ReActResult) \<times> nat) \<Rightarrow> (nat \<Rightarrow> (exn + ReflectionResult) \<times> nat)
     \<Rightarrow> string \<Rightarrow> bool \<Rightarrow> int \<Rightarrow> nat
     \<Rightarrow> (exn + AnalysisReport) \<times> nat \<times> (exn + ReActResult) list" where
  "run_agent_with env loop gate tk enable_reflection max_retries c =
     agent_attempts env loop gate tk enable_reflection max_retries [0..max_retries] None c"

text \<open>
  \<open>run_agent\<close> is \<open>run_agent_with\<close> on \<open>run_react_loop\<close> and \<open>reflect_on_analysis\<close> (called
  with its default minimum quality score 0.7); \<open>run_quick_analysis\<close> fixes six steps, no
  reflection and no retry.
\<close>

definition run_agent ::
  "env \<Rightarrow> registry \<Rightarrow> string \<Rightarrow> int \<Rightarrow> bool \<Rightarrow> int \<Rightarrow> nat
     \<Rightarrow> (exn + AnalysisReport) \<times> nat \<times> (exn + ReActResult) list" where
  "run_agent env reg0 tk max_steps enable_reflection max_retries c =
     run_agent_with env (run_react_loop env reg0 max_steps)
       (reflect_on_analysis env (Fin (7 / 10))) tk enable_reflection max_retries c"

definition run_quick_analysis ::
  "env \<Rightarrow> registry \<Rightarrow> string \<Rightarrow> nat \<Rightarrow> (exn + AnalysisReport) \<times> nat \<times> (exn + ReActResult) list" where
  "run_quick_analysis env reg0 tk c = run_agent env reg0 tk 6 False 0 c"

section \<open>Monitor state store (\<open>app/storage/monitor_state.py\<close>)\<close>

text \<open>
  A row of the table \<open>monitors\<close> (\<open>app/database/models.py\<close>), whose primary key is the
  ticker. The column \<open>seen_article_hashes\<close> is a nullable JSON list. Timestamps are hours
  on the real line; a Python \<open>set\<close> of strings that the store is given is a list of its
  members. The table is an association list in row order. Every operation looks the row
  up under \<open>ticker.upper()\<close>, the library's \<open>str_upper\<close>.
\<close>

record Monitor =
  ticker :: string
  interval_hours :: real
  last_run :: "real option"
  next_run :: "real option"
  seen_article_hashes :: "string list option"
  is_active :: bool

record MonitorState =
  state_ticker :: string
  state_interval_hours :: real
  state_last_run :: "real option"
  state_next_run :: "real option"
  state_seen_article_hashes :: "string set"
  state_is_active :: bool

type_synonym monitor_table = "(string \<times> Monitor) list"

definition seen_list :: "Monitor \<Rightarrow> string list" where
  "seen_list m = (case seen_article_hashes m of None \<Rightarrow> [] | Some hs \<Rightarrow> hs)"

definition to_monitor_state :: "Monitor \<Rightarrow> MonitorState" where
  "to_monitor_state m =
     \<lparr>state_ticker = ticker m, state_interval_hours = interval_hours m,
      state_last_run = last_run m, state_next_run = next_run m,
      state_seen_article_hashes = set (seen_list m), state_is_active = is_active m\<rparr>"

definition create_monitor ::
  "env \<Rightarrow> monitor_table \<Rightarrow> string \<Rightarrow> real \<Rightarrow> real \<Rightarrow> monitor_table \<times> MonitorState" where
  "create_monitor env tbl tk hours nxt =
     (let m = (case map_of tbl (str_upper env tk) of
                 Some m0 \<Rightarrow> m0\<lparr>interval_hours := hours, next_run := Some nxt, is_active := True\<rparr>
               | None \<Rightarrow>
                   \<lparr>ticker = str_upper env tk, interval_hours = hours, last_run = None,
                    next_run = Some nxt, seen_article_hashes = Some [], is_active = True\<rparr>)
      in (AList.update (str_upper env tk) m tbl, to_monitor_state m))"

definition get_monitor :: "env \<Rightarrow> monitor_table \<Rightarrow> string \<Rightarrow> MonitorState option" where
  "get_monitor env tbl tk = map_option to_monitor_state (map_of tbl (str_upper env tk))"

definition update_last_run ::
  "env \<Rightarrow> monitor_table \<Rightarrow> string \<Rightarrow> real \<Rightarrow> real \<Rightarrow> monitor_table \<times> MonitorState option" where
  "update_last_run env tbl tk lst nxt =
     (case map_of tbl (str_upper env tk) of
        Some m0 \<Rightarrow>
          (let m = m0\<lparr>last_run := Some lst, next_run := Some nxt\<rparr>
           in (AList.update (str_upper env tk) m tbl, Some (to_monitor_state m)))
      | None \<Rightarrow> (tbl, None))"

text \<open>
  \<open>existing = set(column or []); existing.update(article_hashes); column = list(existing)\<close>.
  The order of \<open>list(existing)\<close> is not specified by Python; the model uses \<open>remdups\<close>,
  and the theorems speak of membership only.
\<close>

definition add_seen_articles :: "env \<Rightarrow> monitor_table \<Rightarrow> string \<Rightarrow> string list \<Rightarrow> monitor_table" where
  "add_seen_articles env tbl tk article_hashes =
     (case map_of tbl (str_upper env tk) of
        Some m0 \<Rightarrow>
          AList.update (str_upper env tk)
            (m0\<lparr>seen_article_hashes := Some (remdups (seen_list m0 @ article_hashes))\<rparr>) tbl
      | None \<Rightarrow> tbl)"

definition stop_monitor :: "env \<Rightarrow> monitor_table \<Rightarrow> string \<Rightarrow> monitor_table \<times> MonitorState option" where
  "stop_monitor env tbl tk =
     (case map_of tbl (str_upper env tk) of
        Some m0 \<Rightarrow>
          (let m = m0\<lparr>is_active := False, next_run := None\<rparr>
           in (AList.update (str_upper env tk) m tbl, Some (to_monitor_state m)))
      | None \<Rightarrow> (tbl, None))"

definition delete_monitor :: "env \<Rightarrow> monitor_table \<Rightarrow> string \<Rightarrow> monitor_table \<times> bool" where
  "delete_monitor env tbl tk =
     (case map_of tbl (str_upper env tk) of
        Some m0 \<Rightarrow> (AList.delete (str_upper env tk) tbl, True)
      | None \<Rightarrow> (tbl, False))"

definition list_active_monitors :: "monitor_table \<Rightarrow> MonitorState list" where
  "list_active_monitors tbl = map to_monitor_state (filter is_active (map snd tbl))"

definition list_all_monitors :: "monitor_table \<Rightarrow> MonitorState list" where
  "list_all_monitors tbl = map to_monitor_state (map snd tbl)"

text \<open>The operations of the store, and the table after one of them.\<close>

datatype store_op =
    CreateMonitor string real real
  | GetMonitor string
  | UpdateLastRun string real real
  | AddSeenArticles string "string list"
  | StopMonitor string
  | DeleteMonitor string
  | ListActiveMonitors
  | ListAllMonitors

fun apply_op :: "env \<Rightarrow> store_op \<Rightarrow> monitor_table \<Rightarrow> monitor_table" where
  "apply_op env (CreateMonitor tk hours nxt) tbl = fst (create_monitor env tbl tk hours nxt)"
| "apply_op env (GetMonitor tk) tbl = tbl"
| "apply_op env (UpdateLastRun tk lst nxt) tbl = fst (update_last_run env tbl tk lst nxt)"
| "apply_op env (AddSeenArticles tk hs) tbl = add_seen_articles env tbl tk hs"
| "apply_op env (StopMonitor tk) tbl = fst (stop_monitor env tbl tk)"
| "apply_op env (DeleteMonitor tk) tbl = fst (delete_monitor env tbl tk)"
| "apply_op env ListActiveMonitors tbl = tbl"
| "apply_op env ListAllMonitors tbl = tbl"

fun is_delete :: "store_op \<Rightarrow> bool" where
  "is_delete (DeleteMonitor _) = True"
| "is_delete _ = False"

text \<open>The persisted seen-set of the subject stored under key \<open>k\<close> (empty if there is none).\<close>

definition seen_of :: "monitor_table \<Rightarrow> string \<Rightarrow> string set" where
  "seen_of tbl k = (case map_of tbl k of None \<Rightarrow> {} | Some m \<Rightarrow> set (seen_list m))"

section \<open>Alerts and the monitoring task (\<open>app/storage/alert_store.py\<close>, \<open>app/scheduler/tasks.py\<close>)\<close>

datatype AlertType = PROACTIVE_ALERT | USER_REQUESTED

record Alert =
  alert_id :: string
  alert_type :: AlertType
  alert_ticker :: string
  triggered_at :: real
  alert_report :: AnalysisReport

record database =
  monitors :: monitor_table
  alerts :: "Alert list"

text \<open>\<open>create_alert\<close>: the alert id is the primary key of the table.\<close>

definition create_alert ::
  "env \<Rightarrow> Alert list \<Rightarrow> string \<Rightarrow> string \<Rightarrow> AnalysisReport \<Rightarrow> AlertType \<Rightarrow> real \<Rightarrow> exn + Alert list" where
  "create_alert env tbl new_id tk report ty now =
     (if new_id \<in> set (map alert_id tbl) then Inl (Exn OtherException ''IntegrityError'')
      else Inr (tbl @ [\<lparr>alert_id = new_id, alert_type = ty, alert_ticker = str_upper env tk,
                        triggered_at = now, alert_report = report\<rparr>]))"

definition hash_article :: "env \<Rightarrow> json \<Rightarrow> json \<Rightarrow> string" where
  "hash_article env title url = md5_hexdigest env (py_str env title @ '':'' @ py_str env url)"

definition article_hash :: "env \<Rightarrow> json \<Rightarrow> exn + string" where
  "article_hash env article =
     (case py_get article ''title'' (JStr []) of
        Inl e \<Rightarrow> Inl e
      | Inr title \<Rightarrow>
         (case py_get article ''url'' (JStr []) of
            Inl e \<Rightarrow> Inl e
          | Inr url \<Rightarrow> Inr (hash_article env title url)))"

text \<open>
  The loop that filters out the articles already seen: \<open>seen\<close> is the seen-set read at
  the start of the task, \<open>new_articles\<close> a list and \<open>new_hashes\<close> a set.
\<close>

fun filter_new ::
  "env \<Rightarrow> string set \<Rightarrow> json list \<Rightarrow> json list \<Rightarrow> string list \<Rightarrow> exn + json list \<times> string list" where
  "filter_new env seen [] new_articles new_hashes = Inr (new_articles, new_hashes)"
| "filter_new env seen (article # rest) new_articles new_hashes =
     (case article_hash env article of
        Inl e \<Rightarrow> Inl e
      | Inr h \<Rightarrow>
          if h \<notin> seen
          then filter_new env seen rest (new_articles @ [article])
                 (if h \<in> set new_hashes then new_hashes else new_hashes @ [h])
          else filter_new env seen rest new_articles new_hashes)"

text \<open>
  \<open>monitoring_task(ticker)\<close>. \<open>now\<close> is \<open>datetime.utcnow()\<close> at the start of the firing,
  \<open>fetch\<close> the outcome of the direct call of the news capability, \<open>new_id\<close> the fresh
  UUID, \<open>min_articles\<close> the setting \<open>monitor_min_articles\<close>. Both handlers of the task are
  \<open>except Exception\<close> and only log. The first component of the result is the exception
  that leaves the task, if any; the database is what has been committed by then.
\<close>

definition monitoring_task ::
  "env \<Rightarrow> int \<Rightarrow> registry \<Rightarrow> database \<Rightarrow> string \<Rightarrow> real \<Rightarrow> tool_outcome \<Rightarrow> string \<Rightarrow> nat
     \<Rightarrow> exn option \<times> database \<times> nat" where
  "monitoring_task env min_articles reg0 db tk now fetch new_id c =
     (case get_monitor env (monitors db) tk of
        None \<Rightarrow> (None, db, c)
      | Some monitor \<Rightarrow>
         if \<not> state_is_active monitor then (None, db, c)
         else
          (let nxt = now + state_interval_hours monitor;
               db1 = db\<lparr>monitors := fst (update_last_run env (monitors db) tk now nxt)\<rparr>
           in case fetch of
                Raises e \<Rightarrow> (except_Exception e, db1, c)
              | Returns news_result \<Rightarrow>
                 if \<not> success news_result then (None, db1, c)
                 else case py_get (data news_result) ''articles'' (JList []) of
                   Inl e \<Rightarrow> (except_Exception e, db1, c)
                 | Inr articles \<Rightarrow>
                    if \<not> py_truthy articles then (None, db1, c)
                    else case py_iter articles of
                      Inl e \<Rightarrow> (except_Exception e, db1, c)
                    | Inr items \<Rightarrow>
                     (case filter_new env (state_seen_article_hashes monitor) items [] [] of
                        Inl e \<Rightarrow> (except_Exception e, db1, c)
                      | Inr (new_articles, new_hashes) \<Rightarrow>
                         (let db2 = (if new_hashes \<noteq> []
                                     then db1\<lparr>monitors := add_seen_articles env (monitors db1) tk new_hashes\<rparr>
                                     else db1)
                          in if int (length new_articles) < min_articles then (None, db2, c)
                             else case run_quick_analysis env reg0 tk c of
                               (Inl e, c', runs) \<Rightarrow> (except_Exception e, db2, c')
                             | (Inr report, c', runs) \<Rightarrow>
                                (case create_alert env (alerts db2) new_id tk report PROACTIVE_ALERT (utcnow env c') of
                                   Inl e \<Rightarrow> (except_Exception e, db2, c')
                                 | Inr tbl \<Rightarrow> (None, db2\<lparr>alerts := tbl\<rparr>, c'))))))"

section \<open>A reference environment for concrete runs\<close>

text \<open>
  Concrete runs below use \<open>ref_loads\<close> for \<open>json.loads\<close> and the following printer for
  \<open>str\<close>: exact on \<open>None\<close>, booleans, ints and strings; every other value prints as a
  question mark. \<open>json.dumps\<close> is the same printer, so the observation text of an object
  payload reads as a question mark in these runs (no theorem speaks of observation
  texts). The digest is the identity, \<open>float\<close> rejects every string, and \<open>str.upper\<close> is
  exact on ASCII strings (it maps the letters a to z and leaves every other character).
\<close>

definition ref_upper_char :: "char \<Rightarrow> char" where
  "ref_upper_char c =
     (case map_of (zip ''abcdefghijklmnopqrstuvwxyz'' ''ABCDEFGHIJKLMNOPQRSTUVWXYZ'') c of
        None \<Rightarrow> c
      | Some u \<Rightarrow> u)"

definition ref_upper :: "string \<Rightarrow> string" where
  "ref_upper s = map ref_upper_char s"

fun ref_str :: "json \<Rightarrow> string" where
  "ref_str JNull = ''None''"
| "ref_str (JBool b) = (if b then ''True'' else ''False'')"
| "ref_str (JInt i) = str_int i"
| "ref_str (JStr s) = s"
| "ref_str x = ''?''"

definition ref_env ::
  "(nat \<Rightarrow> llm_reply) \<Rightarrow> (nat \<Rightarrow> string \<Rightarrow> (string \<times> json) list \<Rightarrow> tool_outcome) \<Rightarrow> env" where
  "ref_env llm tools =
     \<lparr>json_loads = ref_loads, json_dumps = ref_str, py_str = ref_str,
      float_of_str = (\<lambda>s. None), md5_hexdigest = (\<lambda>s. s), str_upper = ref_upper,
      generate_content = llm, tool_execute = tools, utcnow = (\<lambda>c. real c)\<rparr>"

section \<open>Concrete inputs\<close>

definition silent_llm :: "nat \<Rightarrow> llm_reply" where
  "silent_llm k = LLMText ''I cannot answer in JSON.''"

definition failing_tools :: "nat \<Rightarrow> string \<Rightarrow> (string \<times> json) list \<Rightarrow> tool_outcome" where
  "failing_tools k n kw =
     (if n = ''news_retriever'' then Raises (Exn OtherException ''connection reset'')
      else Returns \<lparr>success = True, data = JDict [(''tool'', JStr n)], error = None\<rparr>)"


definition cancelled_llm :: "nat \<Rightarrow> llm_reply" where
  "cancelled_llm k = LLMFault (Exn CancelledError [])"

definition tsla_row :: Monitor where
  "tsla_row =
     \<lparr>ticker = ''TSLA'', interval_hours = 24, last_run = None, next_run = Some 30,
      seen_article_hashes = Some [''h1'', ''h2''], is_active = True\<rparr>"

text \<open>
  A scripted run: a news call, a reply without JSON, a ticker extraction, a second news
  call, then a fenced final answer whose score is out of range and which has six findings.
\<close>

definition analyst_llm :: "nat \<Rightarrow> llm_reply" where
  "analyst_llm k =
     (if k = 0 then LLMText ''{\"thought\": \"get news\", \"action\": \"news_retriever\", \"action_input\": {\"query\": \"TSLA\"}}''
      else if k = 1 then LLMText ''Let me think about this.''
      else if k = 2 then LLMText ''{\"thought\": \"which ticker\", \"action\": \"ticker_extractor\", \"action_input\": {\"text\": \"Tesla\"}}''
      else if k = 3 then LLMText ''{\"thought\": \"more news\", \"action\": \"news_retriever\", \"action_input\": {\"query\": \"Tesla\"}}''
      else if k = 4 then
        LLMText (''Here is my answer: '' @ fence @ ''json'' @ [CHR 0x0A]
          @ ''{\"thought\": \"done\", \"action\": \"final_answer\", \"action_input\": {\"analysis_summary\": \"Mixed outlook\", \"sentiment_score\": 1.5, \"key_findings\": [\"a\", \"b\", \"c\", \"d\", \"e\", \"f\"]}}''
          @ [CHR 0x0A] @ fence @ '' Hope this helps.'')
      else LLMFault (Exn OtherException ''quota exceeded''))"

definition news_tools :: "nat \<Rightarrow> string \<Rightarrow> (string \<times> json) list \<Rightarrow> tool_outcome" where
  "news_tools k n kw =
     (if n = ''news_retriever'' then
        Returns \<lparr>success = True,
                 data = JDict [(''articles'',
                   JList [JDict [(''title'', JStr ''A''), (''url'', JStr ''https://n.example/a'')],
                          JDict [(''title'', JStr ''B''), (''url'', JStr ''https://n.example/b'')]])],
                 error = None\<rparr>
      else if n = ''ticker_extractor'' then
        Returns \<lparr>success = True,
                 data = JDict [(''ticker'', JStr ''TSLA''), (''method'', JStr ''regex'')],
                 error = None\<rparr>
      else Raises (Exn OtherException ''unavailable''))"

text \<open>Replies that are valid JSON but not an object.\<close>

definition array_llm :: "nat \<Rightarrow> llm_reply" where
  "array_llm k = LLMText ''[1, 2]''"

definition number_llm :: "nat \<Rightarrow> llm_reply" where
  "number_llm k = LLMText ''7''"

text \<open>
  For claim C3: a language model that always gives the same final answer, one that
  answers once and then fails, and a Gate that rejects every analysis (and offers a
  refined summary).
\<close>

definition answering_llm :: "nat \<Rightarrow> llm_reply" where
  "answering_llm k =
     LLMText ''{\"action\": \"final_answer\", \"action_input\": {\"analysis_summary\": \"Steady\", \"sentiment_score\": 0.25, \"key_findings\": [\"x\"]}}''"

definition fading_llm :: "nat \<Rightarrow> llm_reply" where
  "fading_llm k =
     (if k = 0 then answering_llm 0 else LLMFault (Exn OtherException ''quota exceeded''))"

definition rejecting_gate :: "nat \<Rightarrow> (exn + ReflectionResult) \<times> nat" where
  "rejecting_gate c =
     (Inr \<lparr>quality_score = Fin (1 / 10), is_acceptable = JBool False,
           improvements = [JStr ''cite data''], refined_summary = JStr ''A refined summary''\<rparr>, c)"

definition steady_answer :: json where
  "steady_answer =
     JDict [(''analysis_summary'', JStr ''Steady''), (''sentiment_score'', JFloat (Fin (1 / 4))),
            (''key_findings'', JList [JStr ''x''])]"

definition steady_result :: ReActResult where
  "steady_result =
     \<lparr>result_success = True,
      steps = [\<lparr>step_number = 1, thought = JStr [], action = JStr ''final_answer'',
                action_input = steady_answer, observation = None, step_error = None\<rparr>],
      final_answer = Some steady_answer, tools_used = [], sources = [], result_error = None\<rparr>"

text \<open>For claim C4: a database with one active subject that has seen the first article.\<close>

definition tsla_db :: database where
  "tsla_db =
     \<lparr>monitors = [(''TSLA'',
         \<lparr>ticker = ''TSLA'', interval_hours = 24, last_run = None, next_run = Some 30,
          seen_article_hashes = Some [''A:https://n.example/a''], is_active = True\<rparr>)],
      alerts = []\<rparr>"

section \<open>Predicates of the claims\<close>

text \<open>The invariants of an \<open>AnalysisReport\<close>: score in \<open>[-1, 1]\<close>, one to five findings.\<close>

definition report_in_range :: "AnalysisReport \<Rightarrow> bool" where
  "report_in_range report \<longleftrightarrow>
     (\<exists>r. sentiment_score report = Fin r \<and> - 1 \<le> r \<and> r \<le> 1)
     \<and> 1 \<le> length (key_findings report) \<and> length (key_findings report) \<le> 5"

text \<open>
  Claim C5 in its own words: the third tier takes the first brace-balanced substring,
  the substring from an opening brace to the closing brace that matches it.
\<close>

fun balanced_rest :: "nat \<Rightarrow> string \<Rightarrow> string option" where
  "balanced_rest d [] = None"
| "balanced_rest d (c # cs) =
     (if c = CHR 0x7B then map_option ((#) c) (balanced_rest (Suc d) cs)
      else if c = CHR 0x7D then
        (case d of
           0 \<Rightarrow> Some [c]
         | Suc d' \<Rightarrow> map_option ((#) c) (balanced_rest d' cs))
      else map_option ((#) c) (balanced_rest d cs))"

fun first_balanced :: "string \<Rightarrow> string option" where
  "first_balanced [] = None"
| "first_balanced (c # cs) =
     (if c = CHR 0x7B then
        (case balanced_rest 0 cs of
           Some r \<Rightarrow> Some (c # r)
         | None \<Rightarrow> first_balanced cs)
      else first_balanced cs)"

definition extract_json_claimed :: "env \<Rightarrow> string \<Rightarrow> json" where
  "extract_json_claimed env txt =
     (case fenced_tier env txt of
        Some v \<Rightarrow> v
      | None \<Rightarrow>
         (case whole_tier env txt of
            Some v \<Rightarrow> v
          | None \<Rightarrow>
             (case (case first_balanced txt of None \<Rightarrow> None | Some g \<Rightarrow> json_loads env g) of
                Some v \<Rightarrow> v
              | None \<Rightarrow> JNull)))"

text \<open>
  For claim C3: the Loop run returned SUCCESS with a final answer; the cause recorded
  for a run that did not; a final answer that the Orchestrator can sanitise and validate
  (an object whose summary is a string and whose score converts to a float, with sources
  that are strings); a Loop that never raises and whose answers are of that kind; a Gate
  that never accepts; a report built from a run with the run's own summary.
\<close>

definition answered :: "exn + ReActResult \<Rightarrow> bool" where
  "answered lr =
     (case lr of
        Inl e \<Rightarrow> False
      | Inr r \<Rightarrow> result_success r \<and> (case final_answer r of None \<Rightarrow> False | Some f \<Rightarrow> py_truthy f))"

definition loop_cause :: "exn + ReActResult \<Rightarrow> string" where
  "loop_cause lr =
     (case lr of
        Inl e \<Rightarrow> exn_str e
      | Inr r \<Rightarrow>
          if \<not> result_success r then
            (case result_error r of
               None \<Rightarrow> ''ReAct loop failed''
             | Some m \<Rightarrow> if m = [] then ''ReAct loop failed'' else m)
          else ''No final answer generated'')"

definition sanitizable :: "env \<Rightarrow> ReActResult \<Rightarrow> bool" where
  "sanitizable env r =
     (case final_answer r of
        None \<Rightarrow> False
      | Some f \<Rightarrow>
          is_dict f
          \<and> (case py_get f ''analysis_summary'' (JStr []) of Inl e \<Rightarrow> False | Inr sm \<Rightarrow> is_str sm)
          \<and> (case py_get f ''sentiment_score'' (JFloat (Fin 0)) of
                Inl e \<Rightarrow> False
              | Inr sc \<Rightarrow> (case py_float env sc of Inl e \<Rightarrow> False | Inr x \<Rightarrow> True))
          \<and> list_all is_str (sources r))"

definition loop_well_behaved :: "env \<Rightarrow> (nat \<Rightarrow> (exn + ReActResult) \<times> nat) \<Rightarrow> bool" where
  "loop_well_behaved env loop =
     (\<forall>c. case fst (loop c) of
            Inl e \<Rightarrow> False
          | Inr r \<Rightarrow> \<not> answered (Inr r) \<or> sanitizable env r)"

definition gate_rejects :: "(nat \<Rightarrow> (exn + ReflectionResult) \<times> nat) \<Rightarrow> bool" where
  "gate_rejects gate =
     (\<forall>c. case fst (gate c) of
            Inl e \<Rightarrow> False
          | Inr verdict \<Rightarrow> \<not> py_truthy (is_acceptable verdict))"

definition unrefined_report_of :: "AnalysisReport \<Rightarrow> exn + ReActResult \<Rightarrow> bool" where
  "unrefined_report_of report lr =
     (case lr of
        Inl e \<Rightarrow> False
      | Inr r \<Rightarrow>
         (case final_answer r of
            None \<Rightarrow> False
          | Some f \<Rightarrow>
              py_get f ''analysis_summary'' (JStr []) = Inr (JStr (analysis_summary report))
              \<and> report_tools_used report = tools_used r
              \<and> map JStr (citation_sources report) = sources r))"

text \<open>
  For claim C4: the fingerprint of a fetched item, and the number \<open>K\<close> of fetched items
  whose fingerprint is not in the seen-set.
\<close>

definition fingerprint :: "env \<Rightarrow> json \<Rightarrow> string" where
  "fingerprint env article = (case article_hash env article of Inl e \<Rightarrow> [] | Inr h \<Rightarrow> h)"

definition new_count :: "env \<Rightarrow> string set \<Rightarrow> json list \<Rightarrow> nat" where
  "new_count env seen items = length (filter (\<lambda>a. fingerprint env a \<notin> seen) items)"

text \<open>
  For claim C9, in the claim's words. The capability call of the iteration at clock \<open>k\<close>
  that succeeded, if there is one: the response decodes to a non-empty object whose action is a
  registered name other than \<open>final_answer\<close>, the call can be made and its result reports
  success. The identifier of such a call (a ticker extraction is recorded with its
  method), and the article URLs a news result returns. \<open>used_ids\<close> lists the identifiers
  of the calls between two clocks, with repetitions, and \<open>seen_urls\<close> concatenates the
  URLs of the news calls between them.
\<close>

definition dispatch_call ::
  "env \<Rightarrow> registry \<Rightarrow> nat \<Rightarrow> string \<Rightarrow> json \<Rightarrow> (string \<times> ToolResult) option" where
  "dispatch_call env reg k a inp =
     (case bind_kwargs inp of
        Inl e \<Rightarrow> None
      | Inr kwargs \<Rightarrow>
         (case registry_execute env k reg a kwargs of
            Inl e \<Rightarrow> None
          | Inr result \<Rightarrow> if success result then Some (a, result) else None))"

definition step_call :: "env \<Rightarrow> registry \<Rightarrow> nat \<Rightarrow> (string \<times> ToolResult) option" where
  "step_call env reg k =
     (case generate_content env k of
        LLMFault e \<Rightarrow> None
      | LLMText response \<Rightarrow>
         (case extract_json env response of
            JDict kvs \<Rightarrow>
              (case (case map_of kvs ''action'' of None \<Rightarrow> JStr [] | Some v \<Rightarrow> v) of
                 JStr a \<Rightarrow>
                   if kvs \<noteq> [] \<and> a \<noteq> ''final_answer'' \<and> a \<in> set (list_tools reg)
                   then dispatch_call env reg k a
                          (case map_of kvs ''action_input'' of None \<Rightarrow> JDict [] | Some v \<Rightarrow> v)
                   else None
               | _ \<Rightarrow> None)
          | _ \<Rightarrow> None))"

definition capability_id :: "env \<Rightarrow> string \<Rightarrow> ToolResult \<Rightarrow> string" where
  "capability_id env a result =
     (if a = ''ticker_extractor'' then
        ''ticker_extractor:'' @
          py_str env (case py_get (data result) ''method'' (JStr ''unknown'') of
                        Inl e \<Rightarrow> JStr ''unknown''
                      | Inr m \<Rightarrow> m)
      else a)"

definition url_of :: "json \<Rightarrow> json" where
  "url_of article = (case py_get article ''url'' JNull of Inl e \<Rightarrow> JNull | Inr u \<Rightarrow> u)"

definition article_urls :: "ToolResult \<Rightarrow> json list" where
  "article_urls result =
     (case py_get (data result) ''articles'' (JList []) of
        Inr (JList items) \<Rightarrow> filter py_truthy (map url_of items)
      | _ \<Rightarrow> [])"

definition ids_at :: "env \<Rightarrow> registry \<Rightarrow> nat \<Rightarrow> string list" where
  "ids_at env reg k =
     (case step_call env reg k of
        None \<Rightarrow> []
      | Some (a, result) \<Rightarrow> [capability_id env a result])"

definition urls_at :: "env \<Rightarrow> registry \<Rightarrow> nat \<Rightarrow> json list" where
  "urls_at env reg k =
     (case step_call env reg k of
        None \<Rightarrow> []
      | Some (a, result) \<Rightarrow> if a = ''news_retriever'' then article_urls result else [])"

definition used_ids :: "env \<Rightarrow> registry \<Rightarrow> nat \<Rightarrow> nat \<Rightarrow> string list" where
  "used_ids env reg c c' = concat (map (ids_at env reg) [c..<c'])"

definition seen_urls :: "env \<Rightarrow> registry \<Rightarrow> nat \<Rightarrow> nat \<Rightarrow> json list" where
  "seen_urls env reg c c' = concat (map (urls_at env reg) [c..<c'])"

text \<open>
  The payloads the two capabilities return on success, as their sources build them: the
  ticker extraction a non-empty object, the news retrieval an object whose \<open>articles\<close> is
  a list of objects.
\<close>

definition news_data_wf :: "json \<Rightarrow> bool" where
  "news_data_wf d =
     (is_dict d \<and>
      (case py_get d ''articles'' (JList []) of
         Inr (JList items) \<Rightarrow> list_all is_dict items
       | _ \<Rightarrow> False))"

definition tool_data_wf :: "env \<Rightarrow> bool" where
  "tool_data_wf env =
     (\<forall>k kw r.
        (tool_execute env k ''ticker_extractor'' kw = Returns r \<and> success r
           \<longrightarrow> is_dict (data r) \<and> py_truthy (data r))
        \<and> (tool_execute env k ''news_retriever'' kw = Returns r \<and> success r
           \<longrightarrow> news_data_wf (data r)))"

section \<open>Properties\<close>

subsection \<open>Exceptions of the interpreter\<close>

lemma py_get_Exception: "py_get x k d = Inl e \<Longrightarrow> is_Exception e"
  by (cases x) auto

lemma py_float_Exception: "py_float env x = Inl e \<Longrightarrow> is_Exception e"
  by (cases x) (auto split: if_splits option.splits)

subsection \<open>Capability Registry\<close>




subsection \<open>Reflection Gate\<close>

text \<open>
  Claim C7, amended. If the language-model call of \<open>reflect_on_analysis\<close> raises an
  exception that is an instance of \<open>Exception\<close>, or nothing is extracted from its response,
  the function returns the default verdict: quality score 0.5, acceptance flag true, and
  an improvements list that holds the note that the assessment could not be completed.
  The function returns a verdict in every case but one: an exception of the model call
  outside \<open>Exception\<close> passes the handler and leaves the function.
\<close>

theorem reflect_fails_open:
  "((\<exists>v. fst (reflect_on_analysis env q c) = Inr v)
      \<or> (\<exists>e. generate_content env c = LLMFault e \<and> \<not> is_Exception e
             \<and> fst (reflect_on_analysis env q c) = Inl e))
   \<and> (\<forall>e. generate_content env c = LLMFault e \<and> is_Exception e \<longrightarrow>
         reflect_on_analysis env q c = (Inr reflection_default, Suc c))
   \<and> (\<forall>t. generate_content env c = LLMText t \<and> \<not> py_truthy (extract_json env t) \<longrightarrow>
         reflect_on_analysis env q c = (Inr reflection_default, Suc c))
   \<and> quality_score reflection_default = Fin (1 / 2)
   \<and> is_acceptable reflection_default = JBool True
   \<and> JStr ''Reflection assessment could not be completed'' \<in> set (improvements reflection_default)"
proof -
  have text_ok: "is_Exception e" if "generate_content env c = LLMText t" "reflect_try env q c = Inl e" for t e
    using that
    by (auto simp: reflect_try_def Let_def split: sum.splits if_splits
        dest: py_get_Exception py_float_Exception)
  have fault: "e' = e" if "generate_content env c = LLMFault e" "reflect_try env q c = Inl e'" for e e'
    using that by (simp add: reflect_try_def)
  have fault_inl: "\<exists>e'. reflect_try env q c = Inl e'" if "generate_content env c = LLMFault e" for e
    using that by (simp add: reflect_try_def)
  have returns: "(\<exists>v. fst (reflect_on_analysis env q c) = Inr v)
      \<or> (\<exists>e. generate_content env c = LLMFault e \<and> \<not> is_Exception e
             \<and> fst (reflect_on_analysis env q c) = Inl e)"
  proof (cases "reflect_try env q c")
    case (Inr v)
    then show ?thesis by (cases v) (simp_all add: reflect_on_analysis_def)
  next
    case (Inl e)
    show ?thesis
    proof (cases "is_Exception e")
      case True
      with Inl show ?thesis by (simp add: reflect_on_analysis_def)
    next
      case False
      with Inl text_ok obtain e0 where "generate_content env c = LLMFault e0"
        by (cases "generate_content env c") auto
      with fault Inl have "generate_content env c = LLMFault e" by auto
      with Inl False show ?thesis by (simp add: reflect_on_analysis_def)
    qed
  qed
  have caught: "\<forall>e. generate_content env c = LLMFault e \<and> is_Exception e \<longrightarrow>
         reflect_on_analysis env q c = (Inr reflection_default, Suc c)"
    by (simp add: reflect_on_analysis_def reflect_try_def)
  have nojson: "\<forall>t. generate_content env c = LLMText t \<and> \<not> py_truthy (extract_json env t) \<longrightarrow>
         reflect_on_analysis env q c = (Inr reflection_default, Suc c)"
    by (simp add: reflect_on_analysis_def reflect_try_def)
  have dflt: "quality_score reflection_default = Fin (1 / 2)"
    "is_acceptable reflection_default = JBool True"
    "JStr ''Reflection assessment could not be completed'' \<in> set (improvements reflection_default)"
    by (simp_all add: reflection_default_def)
  from returns caught nojson dflt show ?thesis by blast
qed

theorem reflect_fails_open_witness:
  "generate_content (ref_env silent_llm failing_tools) 0 = LLMText ''I cannot answer in JSON.''
   \<and> \<not> py_truthy (extract_json (ref_env silent_llm failing_tools) ''I cannot answer in JSON.'')
   \<and> reflect_on_analysis (ref_env silent_llm failing_tools) (Fin (7 / 10)) 0 = (Inr reflection_default, 1)
   \<and> generate_content (ref_env (\<lambda>k. LLMFault (Exn OtherException ''quota'')) failing_tools) 0 =
       LLMFault (Exn OtherException ''quota'')
   \<and> is_Exception (Exn OtherException ''quota'')
   \<and> reflect_on_analysis (ref_env (\<lambda>k. LLMFault (Exn OtherException ''quota'')) failing_tools) (Fin (7 / 10)) 0 =
       (Inr reflection_default, 1)"
proof -
  have g1: "generate_content (ref_env silent_llm failing_tools) 0 = LLMText ''I cannot answer in JSON.''"
    by code_simp
  have nojson: "\<not> py_truthy (extract_json (ref_env silent_llm failing_tools) ''I cannot answer in JSON.'')"
    by code_simp
  have g2: "generate_content (ref_env (\<lambda>k. LLMFault (Exn OtherException ''quota'')) failing_tools) 0 =
              LLMFault (Exn OtherException ''quota'')"
    by (simp add: ref_env_def)
  have g3: "is_Exception (Exn OtherException ''quota'')" by simp
  show ?thesis
    using reflect_fails_open [of "ref_env silent_llm failing_tools" "Fin (7 / 10)" 0]
      reflect_fails_open [of "ref_env (\<lambda>k. LLMFault (Exn OtherException ''quota'')) failing_tools" "Fin (7 / 10)" 0]
      g1 g2 g3 nojson
    by simp
qed

text \<open>
  Claim C7 as stated fails. The handler in \<open>reflect_on_analysis\<close> is \<open>except Exception\<close>; a
  model call that is cancelled raises \<open>CancelledError\<close>, which is not an \<open>Exception\<close>, and
  the function raises it instead of returning the default verdict.
\<close>

theorem reflect_counterexample:
  "generate_content (ref_env cancelled_llm failing_tools) 0 = LLMFault (Exn CancelledError [])
   \<and> reflect_on_analysis (ref_env cancelled_llm failing_tools) (Fin (7 / 10)) 0 =
       (Inl (Exn CancelledError []), 1)"
  by code_simp

subsection \<open>Monitor state store\<close>

text \<open>
  Claim C8. The persisted seen-set of a subject never loses a fingerprint under a store
  operation other than the deletion of the subject: creating or updating a monitor,
  reading it, updating the last and next run, adding seen articles, stopping and listing
  all leave every fingerprint in place. On an existing subject \<open>add_seen_articles\<close> yields
  exactly the union of the prior set and the added hashes.
\<close>

theorem seen_set_monotone:
  "(\<not> is_delete opn \<longrightarrow> seen_of tbl k \<subseteq> seen_of (apply_op env opn tbl) k)
   \<and> (map_of tbl (str_upper env tk) \<noteq> None \<longrightarrow>
        seen_of (add_seen_articles env tbl tk hs) (str_upper env tk) = seen_of tbl (str_upper env tk) \<union> set hs)"
proof -
  have mono: "\<not> is_delete opn \<longrightarrow> seen_of tbl k \<subseteq> seen_of (apply_op env opn tbl) k"
    by (cases opn)
      (auto simp: seen_of_def create_monitor_def update_last_run_def add_seen_articles_def
        stop_monitor_def seen_list_def update_conv Let_def split: option.splits if_splits)
  have union: "map_of tbl (str_upper env tk) \<noteq> None \<longrightarrow>
      seen_of (add_seen_articles env tbl tk hs) (str_upper env tk) = seen_of tbl (str_upper env tk) \<union> set hs"
    by (auto simp: seen_of_def add_seen_articles_def seen_list_def update_conv split: option.splits)
  from mono union show ?thesis by blast
qed

theorem seen_set_monotone_witness:
  "\<not> is_delete (StopMonitor ''tsla'')
   \<and> seen_of [(''TSLA'', tsla_row)] ''TSLA'' \<subseteq> seen_of (apply_op (ref_env silent_llm failing_tools) (StopMonitor ''tsla'') [(''TSLA'', tsla_row)]) ''TSLA''
   \<and> map_of [(''TSLA'', tsla_row)] (str_upper (ref_env silent_llm failing_tools) ''tsla'') \<noteq> None
   \<and> seen_of (add_seen_articles (ref_env silent_llm failing_tools) [(''TSLA'', tsla_row)] ''tsla'' [''h3'', ''h1'']) (str_upper (ref_env silent_llm failing_tools) ''tsla'') =
       seen_of [(''TSLA'', tsla_row)] (str_upper (ref_env silent_llm failing_tools) ''tsla'') \<union> set [''h3'', ''h1'']
   \<and> seen_of (add_seen_articles (ref_env silent_llm failing_tools) [(''TSLA'', tsla_row)] ''tsla'' [''h3'', ''h1'']) ''TSLA'' = {''h1'', ''h2'', ''h3''}"
proof -
  have u: "str_upper (ref_env silent_llm failing_tools) ''tsla'' = ''TSLA''" by code_simp
  have h1: "\<not> is_delete (StopMonitor ''tsla'')" by simp
  have h2: "map_of [(''TSLA'', tsla_row)] (str_upper (ref_env silent_llm failing_tools) ''tsla'') \<noteq> None" by (simp add: u)
  have s: "seen_of [(''TSLA'', tsla_row)] ''TSLA'' = {''h1'', ''h2''}"
    by (simp add: seen_of_def seen_list_def tsla_row_def)
  show ?thesis
    using seen_set_monotone [of "StopMonitor ''tsla''" "[(''TSLA'', tsla_row)]" "''TSLA''"
        "ref_env silent_llm failing_tools" "''tsla''" "[''h3'', ''h1'']"]
      h1 h2
    by (auto simp: u s)
qed

subsection \<open>Reasoning-Acting Loop: the step budget\<close>

lemma react_iteration_clock:
  "clock (snd (react_iteration env reg n st)) = Suc (clock st)"
  by (simp add: react_iteration_def Let_def
      split: llm_reply.splits sum.splits bool.splits prod.splits option.splits)

lemma react_iteration_skip:
  "generate_content env (clock st) = LLMText t \<Longrightarrow> \<not> py_truthy (extract_json env t) \<Longrightarrow>
   react_iteration env reg n st = (Continue, st\<lparr>clock := Suc (clock st)\<rparr>)"
  by (simp add: react_iteration_def Let_def)

lemma react_iteration_return:
  "react_iteration env reg n st = (Return r, st') \<Longrightarrow> \<not> result_success r \<Longrightarrow>
   \<exists>e. generate_content env (clock st) = LLMFault e
       \<and> result_error r = Some (''LLM call failed: '' @ exn_str e)"
  by (auto simp: react_iteration_def Let_def
      split: llm_reply.splits sum.splits bool.splits prod.splits option.splits if_splits)

lemma react_steps_bound:
  "clock (snd (react_steps env reg N ns st)) \<le> clock st + length ns"
proof (induction ns arbitrary: st)
  case Nil
  then show ?case by simp
next
  case (Cons n ns)
  obtain o1 st1 where it: "react_iteration env reg n st = (o1, st1)"
    by (cases "react_iteration env reg n st")
  have c1: "clock st1 = Suc (clock st)"
    using react_iteration_clock [of env reg n st] it by simp
  show ?case
  proof (cases o1)
    case Continue
    then show ?thesis using it Cons.IH [of st1] c1 by simp
  next
    case (Return r)
    then show ?thesis using it c1 by simp
  next
    case (Raise e)
    then show ?thesis using it c1 by simp
  qed
qed

lemma react_steps_unsuccessful:
  "react_steps env reg N ns st = (Inr r, st') \<Longrightarrow> \<not> result_success r \<Longrightarrow>
   (result_error r = Some (''Analysis incomplete after '' @ str_int N @ '' steps'')
      \<and> clock st' = clock st + length ns)
   \<or> (\<exists>e. clock st < clock st' \<and> generate_content env (clock st' - 1) = LLMFault e
          \<and> result_error r = Some (''LLM call failed: '' @ exn_str e))"
proof (induction ns arbitrary: st)
  case Nil
  then show ?case by auto
next
  case (Cons n ns)
  obtain o1 st1 where it: "react_iteration env reg n st = (o1, st1)"
    by (cases "react_iteration env reg n st")
  have c1: "clock st1 = Suc (clock st)"
    using react_iteration_clock [of env reg n st] it by simp
  show ?case
  proof (cases o1)
    case Continue
    then have "react_steps env reg N ns st1 = (Inr r, st')" using Cons.prems(1) it by simp
    from Cons.IH [OF this Cons.prems(2)] c1 show ?thesis by auto
  next
    case (Return r')
    then have eq: "r' = r" "st1 = st'" using Cons.prems(1) it by simp_all
    from react_iteration_return [of env reg n st r st1] it Return eq Cons.prems(2) c1
    show ?thesis by auto
  next
    case (Raise e)
    then show ?thesis using Cons.prems(1) it by simp
  qed
qed

lemma react_steps_all_skipped:
  "(\<forall>i < length ns. \<exists>t. generate_content env (clock st + i) = LLMText t
        \<and> \<not> py_truthy (extract_json env t)) \<Longrightarrow>
   react_steps env reg N ns st =
     (Inr \<lparr>result_success = False, steps = st_steps st, final_answer = None,
           tools_used = remdups (st_tools_used st), sources = st_sources st,
           result_error = Some (''Analysis incomplete after '' @ str_int N @ '' steps'')\<rparr>,
      st\<lparr>clock := clock st + length ns\<rparr>)"
proof (induction ns arbitrary: st)
  case Nil
  then show ?case by simp
next
  case (Cons n ns)
  from Cons.prems obtain t where
    t: "generate_content env (clock st) = LLMText t" "\<not> py_truthy (extract_json env t)"
    by force
  have it: "react_iteration env reg n st = (Continue, st\<lparr>clock := Suc (clock st)\<rparr>)"
    using react_iteration_skip [OF t] .
  have "\<forall>i < length ns. \<exists>t. generate_content env (clock (st\<lparr>clock := Suc (clock st)\<rparr>) + i) = LLMText t
          \<and> \<not> py_truthy (extract_json env t)"
    using Cons.prems by force
  from Cons.IH [OF this] it show ?case by simp
qed

lemma react_iteration_success:
  "react_iteration env reg n st = (Return r, st') \<Longrightarrow> result_success r \<Longrightarrow>
   steps r \<noteq> [] \<and> action (last (steps r)) = JStr ''final_answer''"
  by (auto simp: react_iteration_def Let_def
      split: llm_reply.splits sum.splits bool.splits prod.splits option.splits if_splits)

lemma react_steps_success:
  "react_steps env reg N ns st = (Inr r, st') \<Longrightarrow> result_success r \<Longrightarrow>
   steps r \<noteq> [] \<and> action (last (steps r)) = JStr ''final_answer''"
proof (induction ns arbitrary: st)
  case Nil
  then show ?case by auto
next
  case (Cons n ns)
  obtain o1 st1 where it: "react_iteration env reg n st = (o1, st1)"
    by (cases "react_iteration env reg n st")
  show ?case
  proof (cases o1)
    case Continue
    then have "react_steps env reg N ns st1 = (Inr r, st')" using Cons.prems(1) it by simp
    from Cons.IH [OF this Cons.prems(2)] show ?thesis .
  next
    case (Return r')
    then have "r' = r" using Cons.prems(1) it by simp
    with react_iteration_success [of env reg n st r st1] it Return Cons.prems(2)
    show ?thesis by simp
  next
    case (Raise e)
    then show ?thesis using Cons.prems(1) it by simp
  qed
qed

text \<open>
  Claim C2. (1) A response from which nothing is extracted skips the iteration: no step
  is appended, the loop goes on with the step numbers that remain, and the clock has
  advanced by the one call. (2) A run with budget \<open>N\<close> makes at most \<open>N\<close> language-model
  calls. (3) If each of the \<open>N\<close> responses yields nothing, the run returns the
  unsuccessful result with the error "Analysis incomplete after N steps", with no steps,
  after exactly \<open>N\<close> calls. (4) An unsuccessful result is either that exhaustion result,
  after exactly \<open>N\<close> iterations, or the failure of a language-model call. (5) A
  successful result ends with a step whose action is \<open>final_answer\<close>; so a run without
  such an action and without a failing call or an exception ends exhausted.
\<close>

theorem react_loop_budget:
  "(\<forall>t. generate_content env (clock st) = LLMText t \<and> \<not> py_truthy (extract_json env t) \<longrightarrow>
        react_iteration env reg n st = (Continue, st\<lparr>clock := Suc (clock st)\<rparr>)
        \<and> react_steps env reg N (n # ns) st = react_steps env reg N ns (st\<lparr>clock := Suc (clock st)\<rparr>))
   \<and> snd (run_react_loop env reg0 N c) \<le> c + nat N
   \<and> ((\<forall>i < nat N. \<exists>t. generate_content env (c + i) = LLMText t \<and> \<not> py_truthy (extract_json env t)) \<longrightarrow>
        run_react_loop env reg0 N c =
          (Inr \<lparr>result_success = False, steps = [], final_answer = None, tools_used = [], sources = [],
                result_error = Some (''Analysis incomplete after '' @ str_int N @ '' steps'')\<rparr>,
           c + nat N))
   \<and> (\<forall>r. fst (run_react_loop env reg0 N c) = Inr r \<and> \<not> result_success r \<longrightarrow>
        (result_error r = Some (''Analysis incomplete after '' @ str_int N @ '' steps'')
           \<and> snd (run_react_loop env reg0 N c) = c + nat N)
        \<or> (\<exists>e. generate_content env (snd (run_react_loop env reg0 N c) - 1) = LLMFault e
               \<and> result_error r = Some (''LLM call failed: '' @ exn_str e)))
   \<and> (\<forall>r. fst (run_react_loop env reg0 N c) = Inr r \<and> result_success r \<longrightarrow>
        steps r \<noteq> [] \<and> action (last (steps r)) = JStr ''final_answer'')"
proof -
  let ?st0 = "\<lparr>clock = c, st_steps = [], st_tools_used = [], st_sources = []\<rparr>"
  let ?reg = "register_all_tools reg0"
  have skip: "\<forall>t. generate_content env (clock st) = LLMText t \<and> \<not> py_truthy (extract_json env t) \<longrightarrow>
        react_iteration env reg n st = (Continue, st\<lparr>clock := Suc (clock st)\<rparr>)
        \<and> react_steps env reg N (n # ns) st = react_steps env reg N ns (st\<lparr>clock := Suc (clock st)\<rparr>)"
    using react_iteration_skip [of env st _ reg n] by auto
  have bound: "snd (run_react_loop env reg0 N c) \<le> c + nat N"
  proof -
    obtain out st' where rs: "react_steps env ?reg N [1..N] ?st0 = (out, st')"
      by (cases "react_steps env ?reg N [1..N] ?st0")
    with react_steps_bound [of env ?reg N "[1..N]" ?st0] show ?thesis
      by (simp add: run_react_loop_def)
  qed
  have exhausted: "(\<forall>i < nat N. \<exists>t. generate_content env (c + i) = LLMText t \<and> \<not> py_truthy (extract_json env t)) \<longrightarrow>
        run_react_loop env reg0 N c =
          (Inr \<lparr>result_success = False, steps = [], final_answer = None, tools_used = [], sources = [],
                result_error = Some (''Analysis incomplete after '' @ str_int N @ '' steps'')\<rparr>,
           c + nat N)"
    using react_steps_all_skipped [of "[1..N]" env ?st0 ?reg N]
    by (simp add: run_react_loop_def)
  have unsuccessful: "\<forall>r. fst (run_react_loop env reg0 N c) = Inr r \<and> \<not> result_success r \<longrightarrow>
        (result_error r = Some (''Analysis incomplete after '' @ str_int N @ '' steps'')
           \<and> snd (run_react_loop env reg0 N c) = c + nat N)
        \<or> (\<exists>e. generate_content env (snd (run_react_loop env reg0 N c) - 1) = LLMFault e
               \<and> result_error r = Some (''LLM call failed: '' @ exn_str e))"
  proof (intro allI impI)
    fix r
    assume a: "fst (run_react_loop env reg0 N c) = Inr r \<and> \<not> result_success r"
    obtain out st' where rs: "react_steps env ?reg N [1..N] ?st0 = (out, st')"
      by (cases "react_steps env ?reg N [1..N] ?st0")
    then have run: "run_react_loop env reg0 N c = (out, clock st')"
      by (simp add: run_react_loop_def)
    with a have "out = Inr r" by simp
    with rs have "react_steps env ?reg N [1..N] ?st0 = (Inr r, st')" by simp
    from react_steps_unsuccessful [OF this] a run
    show "(result_error r = Some (''Analysis incomplete after '' @ str_int N @ '' steps'')
           \<and> snd (run_react_loop env reg0 N c) = c + nat N)
        \<or> (\<exists>e. generate_content env (snd (run_react_loop env reg0 N c) - 1) = LLMFault e
               \<and> result_error r = Some (''LLM call failed: '' @ exn_str e))"
      by auto
  qed
  have successful: "\<forall>r. fst (run_react_loop env reg0 N c) = Inr r \<and> result_success r \<longrightarrow>
        steps r \<noteq> [] \<and> action (last (steps r)) = JStr ''final_answer''"
  proof (intro allI impI)
    fix r
    assume a: "fst (run_react_loop env reg0 N c) = Inr r \<and> result_success r"
    obtain out st' where rs: "react_steps env ?reg N [1..N] ?st0 = (out, st')"
      by (cases "react_steps env ?reg N [1..N] ?st0")
    then have "run_react_loop env reg0 N c = (out, clock st')"
      by (simp add: run_react_loop_def)
    with a have "out = Inr r" by simp
    with rs have "react_steps env ?reg N [1..N] ?st0 = (Inr r, st')" by simp
    from react_steps_success [OF this] a
    show "steps r \<noteq> [] \<and> action (last (steps r)) = JStr ''final_answer''" by simp
  qed
  from skip bound exhausted unsuccessful successful show ?thesis by blast
qed

theorem react_loop_budget_witness:
  "generate_content (ref_env silent_llm failing_tools) 0 = LLMText ''I cannot answer in JSON.''
   \<and> \<not> py_truthy (extract_json (ref_env silent_llm failing_tools) ''I cannot answer in JSON.'')
   \<and> react_iteration (ref_env silent_llm failing_tools) (register_all_tools []) 1
        \<lparr>clock = 0, st_steps = [], st_tools_used = [], st_sources = []\<rparr> =
       (Continue, \<lparr>clock = 1, st_steps = [], st_tools_used = [], st_sources = []\<rparr>)
   \<and> run_react_loop (ref_env silent_llm failing_tools) [] 3 0 =
       (Inr \<lparr>result_success = False, steps = [], final_answer = None, tools_used = [], sources = [],
             result_error = Some ''Analysis incomplete after 3 steps''\<rparr>, 3)"
proof -
  let ?env = "ref_env silent_llm failing_tools"
  have g: "\<And>k. generate_content ?env k = LLMText ''I cannot answer in JSON.''"
    by (simp add: ref_env_def silent_llm_def)
  have nojson: "\<not> py_truthy (extract_json ?env ''I cannot answer in JSON.'')"
    by code_simp
  have all: "\<forall>i < nat 3. \<exists>t. generate_content ?env (0 + i) = LLMText t \<and> \<not> py_truthy (extract_json ?env t)"
    using g nojson by simp
  have three: "str_int 3 = ''3''" by code_simp
  show ?thesis
    using react_loop_budget [of ?env "\<lparr>clock = 0, st_steps = [], st_tools_used = [], st_sources = []\<rparr>"
        "register_all_tools []" 1 3 "[]" "[]" 0] g nojson all
    by (simp add: three)
qed

text \<open>
  Claim C10 fails on the code. The second tier of \<open>_extract_json\<close> returns whatever
  \<open>json.loads\<close> decodes from the whole response; a non-empty array or a non-zero number is
  truthy, so the iteration goes on to \<open>parsed.get("thought", "")\<close>, which raises
  \<open>AttributeError\<close> outside every \<open>try\<close>: \<open>run_react_loop\<close> raises in its first iteration
  and returns no result. An empty object is skipped.
\<close>

theorem react_loop_raises_on_non_object:
  "run_react_loop (ref_env array_llm failing_tools) [] 10 0 =
     (Inl (Exn AttributeError (quoted ''list'' @ '' object has no attribute '' @ quoted ''get'')), 1)
   \<and> run_react_loop (ref_env number_llm failing_tools) [] 10 0 =
     (Inl (Exn AttributeError (quoted ''int'' @ '' object has no attribute '' @ quoted ''get'')), 1)
   \<and> extract_json (ref_env array_llm failing_tools) ''[1, 2]'' = JList [JInt 1, JInt 2]
   \<and> extract_json (ref_env array_llm failing_tools) ''{}'' = JDict []"
  by code_simp

subsection \<open>Orchestrator: the invariants of a report\<close>

lemma clamp_sentiment_range: "\<exists>r. clamp_sentiment s = Fin r \<and> - 1 \<le> r \<and> r \<le> 1"
  by (cases s) (auto simp: clamp_sentiment_def py_min_def py_max_def)

lemma sanitized_findings_length:
  "1 \<le> length (findings_or_placeholder (coerce_findings env kf))
   \<and> length (findings_or_placeholder (coerce_findings env kf)) \<le> 5"
  by (cases kf) (auto simp: findings_or_placeholder_def coerce_findings_def Suc_le_eq)

lemma make_report_in_range:
  "make_report tk summary score findings used srcs now = Inr report \<Longrightarrow> report_in_range report"
  by (cases score) (auto simp: make_report_def report_in_range_def split: if_splits)

lemma sanitized_passes_validation:
  "list_all is_str srcs \<Longrightarrow>
   \<exists>report. make_report tk (JStr s) (clamp_sentiment x)
               (findings_or_placeholder (coerce_findings env kf)) used srcs now = Inr report"
  using clamp_sentiment_range [of x] sanitized_findings_length [of env kf]
  by (auto simp: make_report_def)

lemma agent_attempt_done:
  "agent_attempt env loop gate tk er R a c = ((Done report, lr), c') \<Longrightarrow> report_in_range report"
  unfolding agent_attempt_def Let_def
  by (auto split: prod.splits sum.splits if_splits option.splits dest: make_report_in_range)

lemma agent_attempts_in_range:
  "fst (agent_attempts env loop gate tk er R as le c) = Inr report \<Longrightarrow> report_in_range report"
proof (induction as arbitrary: le c)
  case Nil
  then show ?case by simp
next
  case (Cons a as)
  obtain oc lr c1 where at: "agent_attempt env loop gate tk er R a c = ((oc, lr), c1)"
    by (metis prod.exhaust)
  show ?case
  proof (cases oc)
    case (Retry cause)
    with Cons.prems at
    have "fst (agent_attempts env loop gate tk er R as (Some cause) c1) = Inr report"
      by (simp split: prod.splits)
    with Cons.IH show ?thesis by blast
  next
    case (Done rep)
    with Cons.prems at have "rep = report" by simp
    with at Done agent_attempt_done show ?thesis by blast
  next
    case (Fail e)
    with Cons.prems at show ?thesis by simp
  qed
qed

text \<open>
  Claim C1. Every report that \<open>run_agent\<close> returns (with any Loop and Gate in its place,
  and so also every report of \<open>run_quick_analysis\<close>) has a sentiment score in \<open>[-1, 1]\<close>
  and between one and five findings. This is what the sanitising does on every final
  answer: the clamped score is a finite number in \<open>[-1, 1]\<close> for every float, the findings
  after coercion, truncation and the placeholder number between one and five, and a
  report built from them passes the validation of these two fields.
\<close>

theorem report_invariants:
  "(\<forall>report. fst (run_agent env reg0 tk N er R c) = Inr report \<longrightarrow> report_in_range report)
   \<and> (\<forall>report. fst (run_quick_analysis env reg0 tk c) = Inr report \<longrightarrow> report_in_range report)
   \<and> (\<forall>report. fst (run_agent_with env loop gate tk er R c) = Inr report \<longrightarrow> report_in_range report)
   \<and> (\<exists>r. clamp_sentiment s = Fin r \<and> - 1 \<le> r \<and> r \<le> 1)
   \<and> 1 \<le> length (findings_or_placeholder (coerce_findings env kf))
   \<and> length (findings_or_placeholder (coerce_findings env kf)) \<le> 5
   \<and> (list_all is_str srcs \<longrightarrow>
        (\<exists>report. make_report tk (JStr summary) (clamp_sentiment s)
                     (findings_or_placeholder (coerce_findings env kf)) used srcs now = Inr report))"
proof -
  have core: "\<And>l g e r report. fst (run_agent_with env l g tk e r c) = Inr report
      \<Longrightarrow> report_in_range report"
    unfolding run_agent_with_def by (rule agent_attempts_in_range)
  have agent: "\<forall>report. fst (run_agent env reg0 tk N er R c) = Inr report \<longrightarrow> report_in_range report"
    unfolding run_agent_def using core by blast
  have quick: "\<forall>report. fst (run_quick_analysis env reg0 tk c) = Inr report \<longrightarrow> report_in_range report"
    unfolding run_quick_analysis_def run_agent_def using core by blast
  have generic: "\<forall>report. fst (run_agent_with env loop gate tk er R c) = Inr report \<longrightarrow> report_in_range report"
    using core by blast
  from agent quick generic clamp_sentiment_range [of s] sanitized_findings_length [of env kf]
    sanitized_passes_validation [of srcs tk summary s env kf used now]
  show ?thesis by blast
qed

theorem report_invariants_witness:
  "fst (run_agent (ref_env analyst_llm news_tools) [] ''TSLA'' 10 False 0 0) =
     Inr \<lparr>company_ticker = ''TSLA'', analysis_summary = ''Mixed outlook'', sentiment_score = Fin 1,
          key_findings = [''a'', ''b'', ''c'', ''d'', ''e''],
          report_tools_used = [''ticker_extractor:regex'', ''news_retriever''],
          citation_sources = [''https://n.example/a'', ''https://n.example/b'',
                              ''https://n.example/a'', ''https://n.example/b''],
          generated_at = 5\<rparr>
   \<and> report_in_range
        \<lparr>company_ticker = ''TSLA'', analysis_summary = ''Mixed outlook'', sentiment_score = Fin 1,
         key_findings = [''a'', ''b'', ''c'', ''d'', ''e''],
         report_tools_used = [''ticker_extractor:regex'', ''news_retriever''],
         citation_sources = [''https://n.example/a'', ''https://n.example/b'',
                             ''https://n.example/a'', ''https://n.example/b''],
         generated_at = 5\<rparr>
   \<and> list_all is_str [JStr ''u'']
   \<and> (\<exists>report. make_report ''TSLA'' (JStr ''s'') (clamp_sentiment NaN)
                  (findings_or_placeholder (coerce_findings (ref_env analyst_llm news_tools) JNull))
                  [] [JStr ''u''] 0 = Inr report)"
proof -
  let ?env = "ref_env analyst_llm news_tools"
  have run: "fst (run_agent ?env [] ''TSLA'' 10 False 0 0) =
     Inr \<lparr>company_ticker = ''TSLA'', analysis_summary = ''Mixed outlook'', sentiment_score = Fin 1,
          key_findings = [''a'', ''b'', ''c'', ''d'', ''e''],
          report_tools_used = [''ticker_extractor:regex'', ''news_retriever''],
          citation_sources = [''https://n.example/a'', ''https://n.example/b'',
                              ''https://n.example/a'', ''https://n.example/b''],
          generated_at = 5\<rparr>"
    by code_simp
  have strs: "list_all is_str [JStr ''u'']" by simp
  show ?thesis
    using report_invariants [of ?env "[]" "''TSLA''" 10 False 0 0 "\<lambda>c. (Inl (Exn OtherException []), c)"
        "\<lambda>c. (Inl (Exn OtherException []), c)" NaN JNull "[JStr ''u'']" "''s''" "[]" 0] run strs
    by simp
qed

subsection \<open>Extraction of JSON: the three tiers\<close>

lemma not_space_bq [simp]: "\<not> is_space (CHR 0x60)" by (simp add: is_space_def)
lemma not_space_ob [simp]: "\<not> is_space (CHR 0x7B)" by (simp add: is_space_def)
lemma not_space_cb [simp]: "\<not> is_space (CHR 0x7D)" by (simp add: is_space_def)
lemma not_space_j [simp]: "\<not> is_space (CHR ''j'')" by (simp add: is_space_def)

lemma starts_with_append [simp]: "starts_with (p @ r) p"
  by (induction p) auto

lemma starts_with_fence_head:
  "c \<noteq> CHR 0x60 \<Longrightarrow> \<not> starts_with (c # r) fence"
  by simp

lemma fence_search_skip:
  "CHR 0x60 \<notin> set pre \<Longrightarrow> fence_search (pre @ r) = fence_search r"
  by (induction pre) (auto simp: fence_match_here_def)

lemma dropWhile_spaces:
  "list_all is_space ws \<Longrightarrow> \<not> is_space c \<Longrightarrow> dropWhile is_space (ws @ c # r) = c # r"
  by (induction ws) auto

lemma dropWhile_head:
  "\<not> P c \<Longrightarrow> \<exists>h t. dropWhile P (cs @ c # r) = h # t \<and> (h \<in> set cs \<or> h = c)"
  by (induction cs) auto

lemma fence_close_inner:
  assumes "CHR 0x60 \<notin> set cs"
  shows "\<not> fence_close (cs @ CHR 0x7D # r)"
proof -
  from dropWhile_head [of is_space "CHR 0x7D" cs r]
  obtain h t where ht: "dropWhile is_space (cs @ CHR 0x7D # r) = h # t" "h \<in> set cs \<or> h = CHR 0x7D"
    by auto
  with assms have "h \<noteq> CHR 0x60" by auto
  with ht show ?thesis by (simp add: fence_close_def)
qed

lemma fence_close_end:
  "list_all is_space ws \<Longrightarrow> fence_close (ws @ fence @ post)"
  using dropWhile_spaces [of ws "CHR 0x60" "CHR 0x60 # CHR 0x60 # post"]
  by (simp add: fence_close_def)

lemma lazy_object_body:
  "CHR 0x60 \<notin> set body \<Longrightarrow> list_all is_space ws \<Longrightarrow>
   lazy_object (body @ CHR 0x7D # ws @ fence @ post) = Some (body @ [CHR 0x7D])"
proof (induction body)
  case Nil
  then show ?case using fence_close_end [of ws post] by simp
next
  case (Cons c cs)
  then have "\<not> fence_close (cs @ CHR 0x7D # ws @ fence @ post)"
    using fence_close_inner [of cs] by simp
  with Cons show ?case by simp
qed

lemma starts_with_json_spaces:
  "list_all is_space ws \<Longrightarrow> \<not> starts_with (ws @ CHR 0x7B # r) ''json''"
  by (cases ws) auto

lemma fence_match_block:
  assumes "CHR 0x60 \<notin> set body" "list_all is_space ws1" "list_all is_space ws2"
    "lang = [] \<or> lang = ''json''"
  shows "fence_match_here (fence @ lang @ ws1 @ CHR 0x7B # body @ [CHR 0x7D] @ ws2 @ fence @ post)
         = Some (CHR 0x7B # body @ [CHR 0x7D])"
proof -
  have lz: "lazy_object (body @ CHR 0x7D # ws2 @ fence @ post) = Some (body @ [CHR 0x7D])"
    using lazy_object_body assms by simp
  have dw: "dropWhile is_space (ws1 @ CHR 0x7B # body @ [CHR 0x7D] @ ws2 @ fence @ post)
            = CHR 0x7B # body @ [CHR 0x7D] @ ws2 @ fence @ post"
    using dropWhile_spaces [OF assms(2), of "CHR 0x7B"] by simp
  from assms(4) show ?thesis
  proof
    assume "lang = []"
    then show ?thesis
      using starts_with_json_spaces [OF assms(2)] dw lz
      by (simp add: fence_match_here_def)
  next
    assume "lang = ''json''"
    then show ?thesis
      using dw lz by (simp add: fence_match_here_def)
  qed
qed

lemma fence_search_block:
  assumes "CHR 0x60 \<notin> set pre" "CHR 0x60 \<notin> set body" "list_all is_space ws1" "list_all is_space ws2"
    "lang = [] \<or> lang = ''json''"
  shows "fence_search (pre @ fence @ lang @ ws1 @ CHR 0x7B # body @ [CHR 0x7D] @ ws2 @ fence @ post)
         = Some (CHR 0x7B # body @ [CHR 0x7D])"
proof -
  have "fence_search (fence @ lang @ ws1 @ CHR 0x7B # body @ [CHR 0x7D] @ ws2 @ fence @ post)
        = Some (CHR 0x7B # body @ [CHR 0x7D])"
    using fence_match_block [OF assms(2-5), of post] by simp
  with fence_search_skip [OF assms(1)] show ?thesis by simp
qed

lemma brace_search_span:
  assumes "CHR 0x7B \<notin> set a" "CHR 0x7D \<notin> set b"
  shows "brace_search (a @ CHR 0x7B # m @ CHR 0x7D # b) = Some (CHR 0x7B # m @ [CHR 0x7D])"
proof -
  have d1: "dropWhile (\<lambda>c. c \<noteq> CHR 0x7B) (a @ CHR 0x7B # m @ CHR 0x7D # b) = CHR 0x7B # m @ CHR 0x7D # b"
    using assms(1) by (induction a) auto
  have d2: "dropWhile (\<lambda>c. c \<noteq> CHR 0x7D) (rev b @ CHR 0x7D # rev m) = CHR 0x7D # rev m"
    using assms(2) by (induction b rule: rev_induct) auto
  show ?thesis by (simp add: brace_search_def d1 d2)
qed

lemma brace_search_none:
  assumes "CHR 0x7B \<notin> set resp"
  shows "brace_search resp = None"
proof -
  have d: "dropWhile (\<lambda>c. c \<noteq> CHR 0x7B) resp = []"
    using assms by (induction resp) auto
  show ?thesis by (simp add: brace_search_def d)
qed

text \<open>
  Claim C5, amended. \<open>_extract_json\<close> tries three tiers in order and returns the first
  that decodes: the content of a fenced block, the whole trimmed response, and the
  substring from the first opening brace to the last closing brace of the response (not
  the first brace-balanced substring). A response made of prose without backquotes, a
  fence with or without \<open>json\<close>, an object without backquotes and a closing fence, followed
  by anything, yields exactly the decoded object.
\<close>

theorem extract_json_tiers:
  "(CHR 0x60 \<notin> set pre \<and> CHR 0x60 \<notin> set body \<and> list_all is_space ws1 \<and> list_all is_space ws2
      \<and> (lang = [] \<or> lang = ''json'') \<and> json_loads env (CHR 0x7B # body @ [CHR 0x7D]) = Some v \<longrightarrow>
      extract_json env (pre @ fence @ lang @ ws1 @ CHR 0x7B # body @ [CHR 0x7D] @ ws2 @ fence @ post) = v)
   \<and> (fenced_tier env resp = Some v \<longrightarrow> extract_json env resp = v)
   \<and> (fenced_tier env resp = None \<and> whole_tier env resp = Some v \<longrightarrow> extract_json env resp = v)
   \<and> (fenced_tier env resp = None \<and> whole_tier env resp = None
        \<and> resp = a @ CHR 0x7B # m @ CHR 0x7D # b \<and> CHR 0x7B \<notin> set a \<and> CHR 0x7D \<notin> set b \<longrightarrow>
        extract_json env resp = (case json_loads env (CHR 0x7B # m @ [CHR 0x7D]) of Some w \<Rightarrow> w | None \<Rightarrow> JNull))
   \<and> (fenced_tier env resp = None \<and> whole_tier env resp = None
        \<and> (CHR 0x7B \<notin> set resp \<or> CHR 0x7D \<notin> set resp) \<longrightarrow> extract_json env resp = JNull)"
proof -
  have fenced: "CHR 0x60 \<notin> set pre \<and> CHR 0x60 \<notin> set body \<and> list_all is_space ws1 \<and> list_all is_space ws2
      \<and> (lang = [] \<or> lang = ''json'') \<and> json_loads env (CHR 0x7B # body @ [CHR 0x7D]) = Some v \<longrightarrow>
      extract_json env (pre @ fence @ lang @ ws1 @ CHR 0x7B # body @ [CHR 0x7D] @ ws2 @ fence @ post) = v"
    using fence_search_block [of pre body ws1 ws2 lang post]
    by (auto simp: extract_json_def fenced_tier_def)
  have t1: "fenced_tier env resp = Some v \<longrightarrow> extract_json env resp = v"
    by (simp add: extract_json_def)
  have t2: "fenced_tier env resp = None \<and> whole_tier env resp = Some v \<longrightarrow> extract_json env resp = v"
    by (simp add: extract_json_def)
  have t3: "fenced_tier env resp = None \<and> whole_tier env resp = None
        \<and> resp = a @ CHR 0x7B # m @ CHR 0x7D # b \<and> CHR 0x7B \<notin> set a \<and> CHR 0x7D \<notin> set b \<longrightarrow>
        extract_json env resp = (case json_loads env (CHR 0x7B # m @ [CHR 0x7D]) of Some w \<Rightarrow> w | None \<Rightarrow> JNull)"
    using brace_search_span [of a b m]
    by (auto simp: extract_json_def braces_tier_def split: option.splits)
  have nob: "brace_search resp = None" if "CHR 0x7D \<notin> set resp"
  proof (cases "dropWhile (\<lambda>c. c \<noteq> CHR 0x7B) resp")
    case Nil
    show ?thesis unfolding brace_search_def Nil by simp
  next
    case (Cons h t)
    have "set t \<subseteq> set resp"
      using set_dropWhileD [of _ "\<lambda>c. c \<noteq> CHR 0x7B" resp] Cons by auto
    with that have "CHR 0x7D \<notin> set t" by blast
    then show ?thesis unfolding brace_search_def Cons by simp
  qed
  have t4: "fenced_tier env resp = None \<and> whole_tier env resp = None
        \<and> (CHR 0x7B \<notin> set resp \<or> CHR 0x7D \<notin> set resp) \<longrightarrow> extract_json env resp = JNull"
    using brace_search_none [of resp] nob
    by (auto simp: extract_json_def braces_tier_def)
  from fenced t1 t2 t3 t4 show ?thesis by blast
qed


theorem extract_json_tiers_witness:
  "CHR 0x60 \<notin> set ''Here is my answer: '' \<and> CHR 0x60 \<notin> set ''\"a\": 1''
   \<and> list_all is_space [CHR 0x0A]
   \<and> json_loads (ref_env silent_llm failing_tools) (CHR 0x7B # ''\"a\": 1'' @ [CHR 0x7D]) = Some (JDict [(''a'', JInt 1)])
   \<and> extract_json (ref_env silent_llm failing_tools)
        (''Here is my answer: '' @ fence @ ''json'' @ [CHR 0x0A] @ CHR 0x7B # ''\"a\": 1'' @ [CHR 0x7D]
           @ [CHR 0x0A] @ fence @ '' Bye {x}'') = JDict [(''a'', JInt 1)]
   \<and> fenced_tier (ref_env silent_llm failing_tools) ''Plan {\"a\": 1} then {\"b\": 2}'' = None
   \<and> whole_tier (ref_env silent_llm failing_tools) ''Plan {\"a\": 1} then {\"b\": 2}'' = None
   \<and> ''Plan {\"a\": 1} then {\"b\": 2}'' = ''Plan '' @ CHR 0x7B # ''\"a\": 1} then {\"b\": 2'' @ CHR 0x7D # []
   \<and> CHR 0x7B \<notin> set ''Plan '' \<and> CHR 0x7D \<notin> set []
   \<and> json_loads (ref_env silent_llm failing_tools) (CHR 0x7B # ''\"a\": 1} then {\"b\": 2'' @ [CHR 0x7D]) = None
   \<and> extract_json (ref_env silent_llm failing_tools) ''Plan {\"a\": 1} then {\"b\": 2}'' = JNull
   \<and> whole_tier (ref_env silent_llm failing_tools) '' {\"k\": true} '' = Some (JDict [(''k'', JBool True)])
   \<and> extract_json (ref_env silent_llm failing_tools) '' {\"k\": true} '' = JDict [(''k'', JBool True)]"
proof -
  let ?env = "ref_env silent_llm failing_tools"
  let ?two = "''Plan {\"a\": 1} then {\"b\": 2}''"
  have p1: "CHR 0x60 \<notin> set ''Here is my answer: ''" by code_simp
  have p2: "CHR 0x60 \<notin> set ''\"a\": 1''" by code_simp
  have p3: "list_all is_space [CHR 0x0A]" by code_simp
  have p4: "json_loads ?env (CHR 0x7B # ''\"a\": 1'' @ [CHR 0x7D]) = Some (JDict [(''a'', JInt 1)])"
    by code_simp
  have q1: "fenced_tier ?env ?two = None" by code_simp
  have q2: "whole_tier ?env ?two = None" by code_simp
  have q3: "?two = ''Plan '' @ CHR 0x7B # ''\"a\": 1} then {\"b\": 2'' @ CHR 0x7D # []" by simp
  have q4: "CHR 0x7B \<notin> set ''Plan ''" by code_simp
  have q5: "json_loads ?env (CHR 0x7B # ''\"a\": 1} then {\"b\": 2'' @ [CHR 0x7D]) = None" by code_simp
  have r1: "fenced_tier ?env '' {\"k\": true} '' = None" by code_simp
  have r2: "whole_tier ?env '' {\"k\": true} '' = Some (JDict [(''k'', JBool True)])" by code_simp
  have q6: "CHR 0x7D \<notin> set []" by simp
  note T1 = extract_json_tiers [where env = ?env and pre = "''Here is my answer: ''" and body = "''\"a\": 1''"
        and ?ws1.0 = "[CHR 0x0A]" and ?ws2.0 = "[CHR 0x0A]" and lang = "''json''" and post = "'' Bye {x}''"
        and v = "JDict [(''a'', JInt 1)]"]
  have fenced: "extract_json ?env
        (''Here is my answer: '' @ fence @ ''json'' @ [CHR 0x0A] @ CHR 0x7B # ''\"a\": 1'' @ [CHR 0x7D]
           @ [CHR 0x0A] @ fence @ '' Bye {x}'') = JDict [(''a'', JInt 1)]"
    by (rule T1 [THEN conjunct1, THEN mp]) (intro conjI p1 p2 p3 p4 disjI2 refl)
  note T2 = extract_json_tiers [where env = ?env and resp = ?two and a = "''Plan ''"
        and m = "''\"a\": 1} then {\"b\": 2''" and b = "[]"]
  have "extract_json ?env ?two =
          (case json_loads ?env (CHR 0x7B # ''\"a\": 1} then {\"b\": 2'' @ [CHR 0x7D]) of
             Some w \<Rightarrow> w | None \<Rightarrow> JNull)"
    by (rule T2 [THEN conjunct2, THEN conjunct2, THEN conjunct2, THEN conjunct1, THEN mp])
      (intro conjI q1 q2 q3 q4 q6)
  then have greedy: "extract_json ?env ?two = JNull"
    by (simp only: q5 option.case)
  note T3 = extract_json_tiers [where env = ?env and resp = "'' {\"k\": true} ''" and v = "JDict [(''k'', JBool True)]"]
  have whole: "extract_json ?env '' {\"k\": true} '' = JDict [(''k'', JBool True)]"
    by (rule T3 [THEN conjunct2, THEN conjunct2, THEN conjunct1, THEN mp]) (intro conjI r1 r2)
  show ?thesis
    by (intro conjI p1 p2 p3 p4 fenced q1 q2 q3 q4 q6 q5 greedy r2 whole)
qed

text \<open>
  Claim C5 as stated fails on the third tier. In a response with two objects in prose
  the first brace-balanced substring is the first object, which decodes; the pattern
  \<open>\{.*\}\<close> of the code is greedy and takes the span from the first opening brace to the
  last closing brace, which does not decode, so the code returns \<open>None\<close>.
\<close>

theorem extract_json_balanced_counterexample:
  "first_balanced ''Plan {\"a\": 1} then {\"b\": 2}'' = Some ''{\"a\": 1}''
   \<and> brace_search ''Plan {\"a\": 1} then {\"b\": 2}'' = Some ''{\"a\": 1} then {\"b\": 2}''
   \<and> extract_json_claimed (ref_env silent_llm failing_tools) ''Plan {\"a\": 1} then {\"b\": 2}'' = JDict [(''a'', JInt 1)]
   \<and> extract_json (ref_env silent_llm failing_tools) ''Plan {\"a\": 1} then {\"b\": 2}'' = JNull
   \<and> extract_json (ref_env silent_llm failing_tools) ''Plan {\"a\": 1} then {\"b\": 2}''
       \<noteq> extract_json_claimed (ref_env silent_llm failing_tools) ''Plan {\"a\": 1} then {\"b\": 2}''"
  by code_simp

subsection \<open>Orchestrator: retries under a Gate that never accepts\<close>

lemma map_JStr_the_str: "list_all is_str xs \<Longrightarrow> map (JStr \<circ> the_str) xs = xs"
proof (induction xs)
  case Nil then show ?case by simp
next
  case (Cons x xs) then show ?case by (cases x) auto
qed

lemma make_report_sanitized:
  assumes "list_all is_str srcs"
  shows "make_report tk (JStr s) (clamp_sentiment x) (findings_or_placeholder (coerce_findings env kf)) used srcs now =
    Inr \<lparr>company_ticker = tk, analysis_summary = s, sentiment_score = clamp_sentiment x,
         key_findings = findings_or_placeholder (coerce_findings env kf), report_tools_used = used,
         citation_sources = map the_str srcs, generated_at = now\<rparr>"
proof -
  obtain r where r: "clamp_sentiment x = Fin r" "- 1 \<le> r" "r \<le> 1"
    using clamp_sentiment_range by blast
  show ?thesis
    using assms sanitized_findings_length [of env kf] r
    by (simp add: make_report_def)
qed

lemma attempt_not_answered:
  assumes "loop c = (lr, c1)" "loop_well_behaved env loop" "\<not> answered lr"
  shows "agent_attempt env loop gate tk er R a c = ((Retry (loop_cause lr), lr), c1)"
proof -
  from assms(2) have "case fst (loop c) of Inl e \<Rightarrow> False | Inr r \<Rightarrow> \<not> answered (Inr r) \<or> sanitizable env r"
    unfolding loop_well_behaved_def by blast
  with assms(1) obtain r where r: "lr = Inr r" by (cases lr) auto
  with assms(3) have na: "\<not> result_success r \<or> \<not> (case final_answer r of None \<Rightarrow> False | Some f \<Rightarrow> py_truthy f)"
    by (simp add: answered_def)
  show ?thesis
    using assms(1) r na
    by (auto simp: agent_attempt_def loop_cause_def split: option.splits)
qed

lemma attempt_answered:
  assumes "loop c = (lr, c1)" "loop_well_behaved env loop" "answered lr" "gate_rejects gate"
  shows "(a < R \<longrightarrow> (\<exists>cause c2. agent_attempt env loop gate tk True R a c = ((Retry cause, lr), c2)))
       \<and> (\<not> a < R \<longrightarrow> (\<exists>report c2. agent_attempt env loop gate tk True R a c = ((Done report, lr), c2)
                           \<and> unrefined_report_of report lr))"
proof -
  from assms(2) have wb: "case fst (loop c) of Inl e \<Rightarrow> False | Inr r \<Rightarrow> \<not> answered (Inr r) \<or> sanitizable env r"
    unfolding loop_well_behaved_def by blast
  with assms(1) obtain r where r: "lr = Inr r" by (cases lr) auto
  with wb assms(1,3) have sz: "sanitizable env r" by simp
  from assms(3) r have ok: "result_success r" by (simp add: answered_def)
  from sz obtain f where f: "final_answer r = Some f" by (auto simp: sanitizable_def split: option.splits)
  from assms(3) r f have tr: "py_truthy f" by (simp add: answered_def)
  from sz f obtain kvs where d: "f = JDict kvs" by (cases f) (auto simp: sanitizable_def)
  from sz f d obtain s where s: "py_get f ''analysis_summary'' (JStr []) = Inr (JStr s)"
    by (cases "case map_of kvs ''analysis_summary'' of None \<Rightarrow> JStr [] | Some v \<Rightarrow> v")
       (auto simp: sanitizable_def)
  from sz f d obtain x where x: "py_float env (case map_of kvs ''sentiment_score'' of None \<Rightarrow> JFloat (Fin 0) | Some v \<Rightarrow> v) = Inr x"
    by (auto simp: sanitizable_def split: sum.splits)
  from sz f have srcs: "list_all is_str (sources r)" by (simp add: sanitizable_def)
  from assms(4) have "case fst (gate c1) of Inl e \<Rightarrow> False | Inr verdict \<Rightarrow> \<not> py_truthy (is_acceptable verdict)"
    unfolding gate_rejects_def by blast
  then obtain verdict c2 where g: "gate c1 = (Inr verdict, c2)" "\<not> py_truthy (is_acceptable verdict)"
    by (cases "gate c1"; cases "fst (gate c1)") auto
  note mk = make_report_sanitized [OF srcs]
  show ?thesis
    using assms(1) r ok f tr d s x g srcs
    by (auto simp: agent_attempt_def Let_def mk unrefined_report_of_def map_JStr_the_str)
qed


lemma attempts_rejecting:
  assumes "gate_rejects gate" "loop_well_behaved env loop"
  shows "k \<le> R \<Longrightarrow> n = nat (R - k) \<Longrightarrow>
     agent_attempts env loop gate tk True R [k..R] le c = (out, c', runs) \<Longrightarrow>
     length runs = Suc n
     \<and> (answered (last runs) \<longrightarrow> (\<exists>report. out = Inr report \<and> unrefined_report_of report (last runs)))
     \<and> (\<not> answered (last runs) \<longrightarrow>
          out = Inl (Exn ValueError (''Analysis failed after '' @ str_int (R + 1) @ '' attempts: ''
                                      @ loop_cause (last runs))))"
proof (induction n arbitrary: k le c out c' runs)
  case 0
  then have kR: "k = R" by simp
  then have lst: "[k..R] = [R]" by (simp add: upto.simps)
  obtain lr c1 where l: "loop c = (lr, c1)" by (cases "loop c")
  show ?case
  proof (cases "answered lr")
    case True
    from attempt_answered [OF l assms(2) True assms(1), of R R tk]
    obtain report c2 where d: "agent_attempt env loop gate tk True R R c = ((Done report, lr), c2)"
      "unrefined_report_of report lr" by auto
    with "0.prems"(3) lst have "out = Inr report" "runs = [lr]" by simp_all
    with d True show ?thesis by simp
  next
    case False
    from attempt_not_answered [OF l assms(2) False, of gate tk True R R]
    have "agent_attempt env loop gate tk True R R c = ((Retry (loop_cause lr), lr), c1)" .
    with "0.prems"(3) lst
    have "out = Inl (Exn ValueError (''Analysis failed after '' @ str_int (R + 1) @ '' attempts: '' @ loop_cause lr))"
      "runs = [lr]" by simp_all
    with False show ?thesis by simp
  qed
next
  case (Suc n)
  then have kR: "k < R" by simp
  then have lst: "[k..R] = k # [k + 1..R]" by (simp add: upto.simps)
  obtain lr c1 where l: "loop c = (lr, c1)" by (cases "loop c")
  have "\<exists>cause c2. agent_attempt env loop gate tk True R k c = ((Retry cause, lr), c2)"
  proof (cases "answered lr")
    case True
    from attempt_answered [OF l assms(2) True assms(1), of k R tk] kR show ?thesis by simp
  next
    case False
    from attempt_not_answered [OF l assms(2) False, of gate tk True R k] show ?thesis by blast
  qed
  then obtain cause c2 where at: "agent_attempt env loop gate tk True R k c = ((Retry cause, lr), c2)"
    by blast
  obtain out2 c3 runs2 where rest:
    "agent_attempts env loop gate tk True R [k + 1..R] (Some cause) c2 = (out2, c3, runs2)"
    by (metis prod.exhaust)
  from Suc.prems(3) lst at rest have eq: "out = out2" "runs = lr # runs2" by simp_all
  have "k + 1 \<le> R" "n = nat (R - (k + 1))" using kR Suc.prems(2) by simp_all
  from Suc.IH [OF this rest]
  have ih: "length runs2 = Suc n
     \<and> (answered (last runs2) \<longrightarrow> (\<exists>report. out2 = Inr report \<and> unrefined_report_of report (last runs2)))
     \<and> (\<not> answered (last runs2) \<longrightarrow>
          out2 = Inl (Exn ValueError (''Analysis failed after '' @ str_int (R + 1) @ '' attempts: ''
                                      @ loop_cause (last runs2))))" .
  then have "runs2 \<noteq> []" by auto
  then have "last runs = last runs2" using eq by simp
  with ih eq show ?case by simp
qed

text \<open>
  Claim C3, amended. With reflection enabled, a retry budget \<open>R \<ge> 0\<close>, a Gate that never
  accepts, and a Loop that does not raise and whose final answers can be sanitised, the
  Orchestrator runs the Loop exactly \<open>R + 1\<close> times. The last run alone decides the
  outcome: if it returned SUCCESS with a final answer, the Orchestrator returns the report
  of that run with the run's own (unrefined) summary; if it did not, the Orchestrator
  raises the error that names the attempt count \<open>R + 1\<close> and the cause of the last run.
\<close>

theorem rejecting_gate_runs_all_attempts:
  assumes "gate_rejects gate" "loop_well_behaved env loop" "0 \<le> R"
    "run_agent_with env loop gate tk True R c = (out, c', runs)"
  shows "length runs = nat (R + 1)
     \<and> (answered (last runs) \<longrightarrow> (\<exists>report. out = Inr report \<and> unrefined_report_of report (last runs)))
     \<and> (\<not> answered (last runs) \<longrightarrow>
          out = Inl (Exn ValueError (''Analysis failed after '' @ str_int (R + 1) @ '' attempts: ''
                                      @ loop_cause (last runs))))"
proof -
  have n: "Suc (nat R) = nat (R + 1)" using assms(3) by simp
  from attempts_rejecting [OF assms(1,2), of 0 R "nat R" tk None c out c' runs] assms(3,4)
  show ?thesis unfolding run_agent_with_def n by simp
qed

theorem rejecting_gate_runs_all_attempts_witness:
  "gate_rejects rejecting_gate
   \<and> loop_well_behaved (ref_env answering_llm failing_tools)
        (run_react_loop (ref_env answering_llm failing_tools) [] 3)
   \<and> run_agent_with (ref_env answering_llm failing_tools)
        (run_react_loop (ref_env answering_llm failing_tools) [] 3) rejecting_gate ''TSLA'' True 1 0 =
       (Inr \<lparr>company_ticker = ''TSLA'', analysis_summary = ''Steady'', sentiment_score = Fin (1 / 4),
             key_findings = [''x''], report_tools_used = [], citation_sources = [], generated_at = 2\<rparr>,
        2, [Inr steady_result, Inr steady_result])
   \<and> length [Inr steady_result, Inr steady_result :: exn + ReActResult] = nat (1 + 1)
   \<and> answered (last [Inr steady_result, Inr steady_result])
   \<and> (\<exists>report. unrefined_report_of report (last [Inr steady_result, Inr steady_result]))"
proof -
  let ?env = "ref_env answering_llm failing_tools"
  have gate: "gate_rejects rejecting_gate"
    by (simp add: gate_rejects_def rejecting_gate_def)
  have ex: "extract_json ?env
     ''{\"action\": \"final_answer\", \"action_input\": {\"analysis_summary\": \"Steady\", \"sentiment_score\": 0.25, \"key_findings\": [\"x\"]}}''
     = JDict [(''action'', JStr ''final_answer''), (''action_input'', steady_answer)]"
    by code_simp
  have gen: "\<And>c. generate_content ?env c = answering_llm 0"
    by (simp add: ref_env_def answering_llm_def)
  have iter: "\<And>c reg. react_iteration ?env reg 1
      \<lparr>clock = c, st_steps = [], st_tools_used = [], st_sources = []\<rparr> =
     (Return steady_result, \<lparr>clock = Suc c, st_steps = [], st_tools_used = [], st_sources = []\<rparr>)"
    unfolding react_iteration_def gen
    unfolding answering_llm_def llm_reply.case Let_def ex
    by (simp add: steady_result_def)
  have u: "[1..3::int] = 1 # [2..3]" by (simp add: upto.simps)
  have loop: "\<And>c. run_react_loop ?env [] 3 c = (Inr steady_result, Suc c)"
    unfolding run_react_loop_def u by (simp add: iter)
  have ok: "answered (Inr steady_result)" "sanitizable ?env steady_result"
    by code_simp+
  have wb: "loop_well_behaved ?env (run_react_loop ?env [] 3)"
    unfolding loop_well_behaved_def by (simp add: loop ok)
  have run: "run_agent_with ?env (run_react_loop ?env [] 3) rejecting_gate ''TSLA'' True 1 0 =
       (Inr \<lparr>company_ticker = ''TSLA'', analysis_summary = ''Steady'', sentiment_score = Fin (1 / 4),
             key_findings = [''x''], report_tools_used = [], citation_sources = [], generated_at = 2\<rparr>,
        2, [Inr steady_result, Inr steady_result])"
    by code_simp
  have R: "(0::int) \<le> 1" by simp
  from rejecting_gate_runs_all_attempts [OF gate wb R run] gate wb run
  show ?thesis by auto
qed

text \<open>
  Claim C3 as stated fails: the Orchestrator raises although an attempt's Loop run
  returned SUCCESS with a final answer. With one retry and a Gate that rejects, the first
  run succeeds and is rejected, the second run fails (the language model is out of
  quota), and \<open>run_agent\<close> raises after two attempts; the first answer is not returned.
\<close>

theorem rejecting_gate_counterexample:
  "gate_rejects rejecting_gate
   \<and> fst (run_agent_with (ref_env fading_llm failing_tools)
            (run_react_loop (ref_env fading_llm failing_tools) [] 3) rejecting_gate ''TSLA'' True 1 0) =
       Inl (Exn ValueError ''Analysis failed after 2 attempts: LLM call failed: quota exceeded'')
   \<and> length (snd (snd (run_agent_with (ref_env fading_llm failing_tools)
            (run_react_loop (ref_env fading_llm failing_tools) [] 3) rejecting_gate ''TSLA'' True 1 0))) = 2
   \<and> answered (hd (snd (snd (run_agent_with (ref_env fading_llm failing_tools)
            (run_react_loop (ref_env fading_llm failing_tools) [] 3) rejecting_gate ''TSLA'' True 1 0))))"
proof -
  have gate: "gate_rejects rejecting_gate"
    by (simp add: gate_rejects_def rejecting_gate_def)
  have run: "fst (run_agent_with (ref_env fading_llm failing_tools)
            (run_react_loop (ref_env fading_llm failing_tools) [] 3) rejecting_gate ''TSLA'' True 1 0) =
       Inl (Exn ValueError ''Analysis failed after 2 attempts: LLM call failed: quota exceeded'')
   \<and> length (snd (snd (run_agent_with (ref_env fading_llm failing_tools)
            (run_react_loop (ref_env fading_llm failing_tools) [] 3) rejecting_gate ''TSLA'' True 1 0))) = 2
   \<and> answered (hd (snd (snd (run_agent_with (ref_env fading_llm failing_tools)
            (run_react_loop (ref_env fading_llm failing_tools) [] 3) rejecting_gate ''TSLA'' True 1 0))))"
    by code_simp
  from gate run show ?thesis by (rule conjI)
qed

subsection \<open>Monitoring task below the threshold\<close>

lemma article_hash_dict: "is_dict a \<Longrightarrow> article_hash env a = Inr (fingerprint env a)"
  by (cases a) (auto simp: article_hash_def fingerprint_def)

lemma filter_new_dicts:
  "list_all is_dict items \<Longrightarrow>
   \<exists>nh'. filter_new env seen items na nh = Inr (na @ filter (\<lambda>a. fingerprint env a \<notin> seen) items, nh')
        \<and> set nh' = set nh \<union> {h \<in> fingerprint env ` set items. h \<notin> seen}"
proof (induction items arbitrary: na nh)
  case Nil
  then show ?case by simp
next
  case (Cons a items)
  then have a: "article_hash env a = Inr (fingerprint env a)" and rest: "list_all is_dict items"
    using article_hash_dict by auto
  show ?case
  proof (cases "fingerprint env a \<in> seen")
    case True
    with a Cons.IH [OF rest, of na nh] show ?thesis by auto
  next
    case False
    from Cons.IH [OF rest, of "na @ [a]" "if fingerprint env a \<in> set nh then nh else nh @ [fingerprint env a]"]
    obtain nh' where "filter_new env seen items (na @ [a])
        (if fingerprint env a \<in> set nh then nh else nh @ [fingerprint env a]) =
        Inr ((na @ [a]) @ filter (\<lambda>a. fingerprint env a \<notin> seen) items, nh')"
      "set nh' = set (if fingerprint env a \<in> set nh then nh else nh @ [fingerprint env a])
         \<union> {h \<in> fingerprint env ` set items. h \<notin> seen}" by blast
    with a False show ?thesis by auto
  qed
qed

lemma seen_of_update_last_run:
  "seen_of (fst (update_last_run env tbl tk l n)) k = seen_of tbl k"
  by (auto simp: seen_of_def update_last_run_def update_conv seen_list_def Let_def split: option.splits)

lemma get_monitor_seen:
  "get_monitor env tbl tk = Some monitor \<Longrightarrow> state_seen_article_hashes monitor = seen_of tbl (str_upper env tk)"
  by (auto simp: get_monitor_def seen_of_def to_monitor_state_def)

text \<open>
  Claim C4. A firing for an active subject fetches \<open>M\<close> items (an article list of
  objects), of which \<open>K\<close>, counted by membership in the subject's seen-set, are new. If
  \<open>K\<close> is below the configured minimum, then the firing raises nothing, no alert is
  created, the subject's \<open>next_run\<close> is \<open>now + interval\<close> (and \<open>last_run\<close> is \<open>now\<close>), no
  analysis is run, and the persisted seen-set afterwards is the prior set together with
  the fingerprints of all \<open>M\<close> items.
\<close>

theorem monitor_below_threshold:
  assumes mon: "get_monitor env (monitors db) tk = Some monitor" "state_is_active monitor"
    and fetch: "fetch = Returns news_result" "success news_result"
      "py_get (data news_result) ''articles'' (JList []) = Inr (JList items)"
      "list_all is_dict items"
    and few: "int (new_count env (seen_of (monitors db) (str_upper env tk)) items) < min_articles"
    and run: "monitoring_task env min_articles reg0 db tk now fetch new_id c = (raised, db', c')"
  shows "raised = None
     \<and> alerts db' = alerts db
     \<and> map_option next_run (map_of (monitors db') (str_upper env tk)) = Some (Some (now + state_interval_hours monitor))
     \<and> map_option last_run (map_of (monitors db') (str_upper env tk)) = Some (Some now)
     \<and> seen_of (monitors db') (str_upper env tk) = seen_of (monitors db) (str_upper env tk) \<union> fingerprint env ` set items
     \<and> c' = c"
proof -
  let ?nxt = "now + state_interval_hours monitor"
  let ?tbl1 = "fst (update_last_run env (monitors db) tk now ?nxt)"
  let ?seen = "seen_of (monitors db) (str_upper env tk)"
  from mon(1) obtain m0 where m0: "map_of (monitors db) (str_upper env tk) = Some m0"
    by (auto simp: get_monitor_def)
  have row1: "map_of ?tbl1 (str_upper env tk) = Some (m0\<lparr>last_run := Some now, next_run := Some ?nxt\<rparr>)"
    using m0 by (simp add: update_last_run_def update_conv Let_def)
  have seen1: "seen_of ?tbl1 (str_upper env tk) = ?seen" by (rule seen_of_update_last_run)
  have sn: "state_seen_article_hashes monitor = ?seen" using get_monitor_seen [OF mon(1)] .
  from filter_new_dicts [OF fetch(4), of env ?seen "[]" "[]"]
  obtain nh where fn: "filter_new env ?seen items [] [] = Inr (filter (\<lambda>a. fingerprint env a \<notin> ?seen) items, nh)"
    and nh: "set nh = {h \<in> fingerprint env ` set items. h \<notin> ?seen}" by auto
  have few': "int (length (filter (\<lambda>a. fingerprint env a \<notin> ?seen) items)) < min_articles"
    using few by (simp add: new_count_def)
  show ?thesis
  proof (cases "items = []")
    case True
    have "monitoring_task env min_articles reg0 db tk now fetch new_id c = (None, db\<lparr>monitors := ?tbl1\<rparr>, c)"
      unfolding monitoring_task_def by (simp add: mon fetch True Let_def)
    with run have "raised = None" "db' = db\<lparr>monitors := ?tbl1\<rparr>" "c' = c" by simp_all
    with row1 seen1 True show ?thesis by simp
  next
    case False
    have it: "py_iter (JList items) = Inr items" by simp
    show ?thesis
    proof (cases "nh = []")
      case True
      with nh have sub: "fingerprint env ` set items \<subseteq> ?seen" by auto
      have "monitoring_task env min_articles reg0 db tk now fetch new_id c = (None, db\<lparr>monitors := ?tbl1\<rparr>, c)"
        unfolding monitoring_task_def by (simp add: mon fetch False sn fn few' True Let_def)
      with run have "raised = None" "db' = db\<lparr>monitors := ?tbl1\<rparr>" "c' = c" by simp_all
      with row1 seen1 sub show ?thesis by auto
    next
      case nonempty: False
      let ?tbl2 = "add_seen_articles env ?tbl1 tk nh"
      have "monitoring_task env min_articles reg0 db tk now fetch new_id c = (None, db\<lparr>monitors := ?tbl2\<rparr>, c)"
        unfolding monitoring_task_def by (simp add: mon fetch False sn fn few' nonempty Let_def)
      with run have db': "raised = None" "db' = db\<lparr>monitors := ?tbl2\<rparr>" "c' = c" by simp_all
      have row2: "map_of ?tbl2 (str_upper env tk) =
          Some (m0\<lparr>last_run := Some now, next_run := Some ?nxt,
                   seen_article_hashes := Some (remdups (seen_list m0 @ nh))\<rparr>)"
        using row1 by (simp add: add_seen_articles_def update_conv seen_list_def)
      have "seen_of ?tbl2 (str_upper env tk) = ?seen \<union> set nh"
        using row2 m0 by (simp add: seen_of_def seen_list_def)
      with nh have "seen_of ?tbl2 (str_upper env tk) = ?seen \<union> fingerprint env ` set items" by auto
      with db' row2 show ?thesis by simp
    qed
  qed
qed

theorem monitor_below_threshold_witness:
  "get_monitor (ref_env silent_llm news_tools) (monitors tsla_db) ''tsla'' =
     Some \<lparr>state_ticker = ''TSLA'', state_interval_hours = 24, state_last_run = None,
           state_next_run = Some 30, state_seen_article_hashes = {''A:https://n.example/a''},
           state_is_active = True\<rparr>
   \<and> py_get (JDict [(''articles'',
          JList [JDict [(''title'', JStr ''A''), (''url'', JStr ''https://n.example/a'')],
                 JDict [(''title'', JStr ''B''), (''url'', JStr ''https://n.example/b'')]])])
        ''articles'' (JList []) =
       Inr (JList [JDict [(''title'', JStr ''A''), (''url'', JStr ''https://n.example/a'')],
                   JDict [(''title'', JStr ''B''), (''url'', JStr ''https://n.example/b'')]])
   \<and> new_count (ref_env silent_llm news_tools) (seen_of (monitors tsla_db) (str_upper (ref_env silent_llm news_tools) ''tsla''))
        [JDict [(''title'', JStr ''A''), (''url'', JStr ''https://n.example/a'')],
         JDict [(''title'', JStr ''B''), (''url'', JStr ''https://n.example/b'')]] = 1
   \<and> fst (monitoring_task (ref_env silent_llm news_tools) 5 [] tsla_db ''tsla'' 100
             (news_tools 0 ''news_retriever'' []) ''alert-1'' 0) = None
   \<and> alerts (fst (snd (monitoring_task (ref_env silent_llm news_tools) 5 [] tsla_db ''tsla'' 100
                     (news_tools 0 ''news_retriever'' []) ''alert-1'' 0))) = []
   \<and> map_option next_run (map_of (monitors (fst (snd (monitoring_task (ref_env silent_llm news_tools) 5 [] tsla_db
                     ''tsla'' 100 (news_tools 0 ''news_retriever'' []) ''alert-1'' 0)))) ''TSLA'') = Some (Some 124)
   \<and> seen_of (monitors (fst (snd (monitoring_task (ref_env silent_llm news_tools) 5 [] tsla_db ''tsla'' 100
                     (news_tools 0 ''news_retriever'' []) ''alert-1'' 0)))) ''TSLA'' =
       {''A:https://n.example/a'', ''B:https://n.example/b''}"
proof -
  let ?env = "ref_env silent_llm news_tools"
  let ?a = "JDict [(''title'', JStr ''A''), (''url'', JStr ''https://n.example/a'')]"
  let ?b = "JDict [(''title'', JStr ''B''), (''url'', JStr ''https://n.example/b'')]"
  let ?monitor = "\<lparr>state_ticker = ''TSLA'', state_interval_hours = 24, state_last_run = None,
           state_next_run = Some 30, state_seen_article_hashes = {''A:https://n.example/a''},
           state_is_active = True\<rparr>"
  let ?result = "\<lparr>success = True, data = JDict [(''articles'', JList [?a, ?b])], error = None\<rparr>"
  let ?run = "monitoring_task ?env 5 [] tsla_db ''tsla'' 100 (news_tools 0 ''news_retriever'' []) ''alert-1'' 0"
  have u: "str_upper ?env ''tsla'' = ''TSLA''" by code_simp
  have mon: "get_monitor (ref_env silent_llm news_tools) (monitors tsla_db) ''tsla'' = Some ?monitor"
    by (simp add: get_monitor_def u tsla_db_def to_monitor_state_def seen_list_def)
  have act: "state_is_active ?monitor" by simp
  have fetch: "news_tools 0 ''news_retriever'' [] = Returns ?result"
    by (simp add: news_tools_def)
  have ok: "success ?result" by simp
  have arts: "py_get (data ?result) ''articles'' (JList []) = Inr (JList [?a, ?b])" by simp
  have dicts: "list_all is_dict [?a, ?b]" by simp
  have fa: "fingerprint ?env ?a = ''A:https://n.example/a''" by code_simp
  have fb: "fingerprint ?env ?b = ''B:https://n.example/b''" by code_simp
  have seen: "seen_of (monitors tsla_db) ''TSLA'' = {''A:https://n.example/a''}"
    by (simp add: seen_of_def tsla_db_def seen_list_def)
  have k: "new_count ?env (seen_of (monitors tsla_db) (str_upper (ref_env silent_llm news_tools) ''tsla'')) [?a, ?b] = 1"
    unfolding u seen new_count_def by (simp add: fa fb)
  have few: "int (new_count ?env (seen_of (monitors tsla_db) (str_upper (ref_env silent_llm news_tools) ''tsla'')) [?a, ?b]) < 5"
    unfolding k by simp
  have run: "?run = (fst ?run, fst (snd ?run), snd (snd ?run))" by simp
  have al: "alerts tsla_db = []" by (simp add: tsla_db_def)
  note C = monitor_below_threshold [OF mon act fetch ok arts dicts few run, unfolded u seen]
  have c0: "fst ?run = None" using C by simp
  have c1: "alerts (fst (snd ?run)) = []" using C al by simp
  have c2: "map_option next_run (map_of (monitors (fst (snd ?run))) ''TSLA'') = Some (Some 124)"
    using C by simp
  have c3: "seen_of (monitors (fst (snd ?run))) ''TSLA'' = {''A:https://n.example/a'', ''B:https://n.example/b''}"
    using C by (auto simp: fa fb)
  have arts2: "py_get (JDict [(''articles'', JList [?a, ?b])]) ''articles'' (JList []) = Inr (JList [?a, ?b])"
    by simp
  show ?thesis by (intro conjI mon arts2 k c0 c1 c2 c3)
qed

subsection \<open>Reasoning-Acting Loop: capability usage and sources\<close>

lemma registry_execute_success:
  "registry_execute env k reg a kw = Inr result \<Longrightarrow> success result \<Longrightarrow>
   \<exists>tool. map_of reg a = Some tool \<and> tool_execute env k (name tool) kw = Returns result"
  by (auto simp: registry_execute_def registry_get_def
      split: option.splits tool_outcome.splits if_splits)

lemma registered_names:
  "map_of (register_all_tools reg0) ''ticker_extractor'' = Some \<lparr>name = ''ticker_extractor''\<rparr>"
  "map_of (register_all_tools reg0) ''news_retriever'' = Some \<lparr>name = ''news_retriever''\<rparr>"
  by (simp_all add: register_all_tools_def register_def update_conv)

lemma wf_dispatch:
  assumes "tool_data_wf env" "registry_execute env k (register_all_tools reg0) a kw = Inr result"
    "success result"
  shows "(a = ''ticker_extractor'' \<longrightarrow> is_dict (data result) \<and> py_truthy (data result))
       \<and> (a = ''news_retriever'' \<longrightarrow> news_data_wf (data result))"
proof -
  from registry_execute_success [OF assms(2,3)] obtain tool where
    t: "map_of (register_all_tools reg0) a = Some tool" "tool_execute env k (name tool) kw = Returns result"
    by blast
  from assms(1) have wf:
    "\<And>k kw r. tool_execute env k ''ticker_extractor'' kw = Returns r \<Longrightarrow> success r \<Longrightarrow> is_dict (data r) \<and> py_truthy (data r)"
    "\<And>k kw r. tool_execute env k ''news_retriever'' kw = Returns r \<Longrightarrow> success r \<Longrightarrow> news_data_wf (data r)"
    unfolding tool_data_wf_def by blast+
  have te: "is_dict (data result) \<and> py_truthy (data result)" if a: "a = ''ticker_extractor''"
  proof -
    from a t(1) registered_names(1) [of reg0] have "tool = \<lparr>name = ''ticker_extractor''\<rparr>" by simp
    then have "name tool = ''ticker_extractor''" by simp
    with t(2) wf(1) assms(3) show ?thesis by simp
  qed
  have nr: "news_data_wf (data result)" if a: "a = ''news_retriever''"
  proof -
    from a t(1) registered_names(2) [of reg0] have "tool = \<lparr>name = ''news_retriever''\<rparr>" by simp
    then have "name tool = ''news_retriever''" by simp
    with t(2) wf(2) assms(3) show ?thesis by simp
  qed
  from te nr show ?thesis by blast
qed

lemma collect_urls_dicts:
  "list_all is_dict items \<Longrightarrow>
   collect_urls items src = (None, src @ filter py_truthy (map url_of items))"
proof (induction items arbitrary: src)
  case Nil
  then show ?case by simp
next
  case (Cons a items)
  then obtain kvs where "a = JDict kvs" by (cases a) auto
  with Cons show ?case by (simp add: url_of_def)
qed

lemma track_sources_wf:
  "news_data_wf d \<Longrightarrow>
   track_sources d src = (None, src @ (case py_get d ''articles'' (JList []) of
        Inr (JList items) \<Rightarrow> filter py_truthy (map url_of items) | _ \<Rightarrow> []))"
  by (auto simp: news_data_wf_def track_sources_def collect_urls_dicts split: sum.splits json.splits)

lemma try_tool_tracks:
  assumes wf: "tool_data_wf env" and reg: "reg = register_all_tools reg0"
    and t: "try_tool env reg k a inp step tu src = (eo, step', tu', src')"
  shows "tu' = tu @ (case dispatch_call env reg k a inp of None \<Rightarrow> [] | Some (a', result) \<Rightarrow> [capability_id env a' result])
       \<and> src' = src @ (case dispatch_call env reg k a inp of None \<Rightarrow> []
                        | Some (a', result) \<Rightarrow> if a' = ''news_retriever'' then article_urls result else [])"
proof (cases "bind_kwargs inp")
  case (Inl e)
  with t show ?thesis by (simp add: try_tool_def dispatch_call_def)
next
  case (Inr kw)
  show ?thesis
  proof (cases "registry_execute env k reg a kw")
    case (Inl e)
    with t Inr show ?thesis by (simp add: try_tool_def dispatch_call_def)
  next
    case res: (Inr result)
    show ?thesis
    proof (cases "success result")
      case False
      with t Inr res show ?thesis by (simp add: try_tool_def dispatch_call_def)
    next
      case True
      from wf_dispatch [OF wf res [unfolded reg] True]
      have d: "a = ''ticker_extractor'' \<longrightarrow> is_dict (data result) \<and> py_truthy (data result)"
        "a = ''news_retriever'' \<longrightarrow> news_data_wf (data result)" by simp_all
      have dc: "dispatch_call env reg k a inp = Some (a, result)"
        using Inr res True by (simp add: dispatch_call_def)
      have tu: "track_usage env a (data result) tu = Inr (tu @ [capability_id env a result])"
      proof (cases "a = ''ticker_extractor''")
        case True
        with d(1) obtain kvs where "data result = JDict kvs" "kvs \<noteq> []"
          by (cases "data result") auto
        with True show ?thesis by (simp add: track_usage_def capability_id_def)
      next
        case False
        then show ?thesis by (simp add: track_usage_def capability_id_def)
      qed
      have core: "tu' = tu @ [capability_id env a result]
          \<and> src' = src @ (if a = ''news_retriever'' then article_urls result else [])"
      proof (cases "a = ''news_retriever''")
        case nr: True
        with d(2) have nw: "news_data_wf (data result)" by simp
        show ?thesis
        proof (cases "py_truthy (data result)")
          case tr: True
          from t Inr res True tu nr tr track_sources_wf [OF nw, of src]
          show ?thesis
            by (auto simp: try_tool_def article_urls_def)
        next
          case ntr: False
          from nw ntr have "data result = JDict []" by (cases "data result") (auto simp: news_data_wf_def)
          then have "article_urls result = []" by (simp add: article_urls_def)
          with t Inr res True tu nr ntr show ?thesis
            by (auto simp: try_tool_def)
        qed
      next
        case False
        with t Inr res True tu show ?thesis
          by (auto simp: try_tool_def)
      qed
      then show ?thesis unfolding dc by simp
    qed
  qed
qed


lemma iteration_tracks:
  assumes wf: "tool_data_wf env" and reg: "reg = register_all_tools reg0"
    and it: "react_iteration env reg n st = (oc, st')"
  shows "(oc = Continue \<longrightarrow>
            st_tools_used st' = st_tools_used st @ ids_at env reg (clock st)
            \<and> st_sources st' = st_sources st @ urls_at env reg (clock st))
       \<and> (\<forall>r. oc = Return r \<and> result_success r \<longrightarrow>
            tools_used r = remdups (st_tools_used st) \<and> sources r = st_sources st
            \<and> ids_at env reg (clock st) = [] \<and> urls_at env reg (clock st) = [])"
proof (cases "generate_content env (clock st)")
  case (LLMFault e)
  with it show ?thesis by (auto simp: react_iteration_def Let_def split: if_splits)
next
  case (LLMText response)
  let ?parsed = "extract_json env response"
  show ?thesis
  proof (cases "py_truthy ?parsed")
    case False
    then have "step_call env reg (clock st) = None"
      by (cases ?parsed) (auto simp: step_call_def LLMText split: json.splits)
    with it LLMText False show ?thesis
      by (auto simp: react_iteration_def ids_at_def urls_at_def)
  next
    case True
    show ?thesis
    proof (cases ?parsed)
      case (JDict kvs)
      let ?act = "case map_of kvs ''action'' of None \<Rightarrow> JStr [] | Some v \<Rightarrow> v"
      let ?inp = "case map_of kvs ''action_input'' of None \<Rightarrow> JDict [] | Some v \<Rightarrow> v"
      from True JDict have ne: "kvs \<noteq> []" by simp
      show ?thesis
      proof (cases "?act = JStr ''final_answer''")
        case fa: True
        then have "step_call env reg (clock st) = None"
          by (simp add: step_call_def LLMText JDict)
        with it LLMText True JDict fa show ?thesis
          by (auto simp: react_iteration_def Let_def ids_at_def urls_at_def)
      next
        case nfa: False
        show ?thesis
        proof (cases "registry_contains reg ?act")
          case (Inl e)
          with it LLMText True JDict nfa show ?thesis
            by (auto simp: react_iteration_def Let_def)
        next
          case (Inr known)
          show ?thesis
          proof (cases known)
            case False
            with Inr have "step_call env reg (clock st) = None"
              by (cases ?act) (auto simp: step_call_def LLMText JDict)
            with it LLMText True JDict nfa Inr False show ?thesis
              by (auto simp: react_iteration_def Let_def ids_at_def urls_at_def)
          next
            case kn: True
            with Inr obtain a where a: "?act = JStr a" "a \<in> set (list_tools reg)"
              by (cases ?act) auto
            from a nfa have an: "a \<noteq> ''final_answer''" by auto
            have sc: "step_call env reg (clock st) = dispatch_call env reg (clock st) a ?inp"
              using a an ne by (simp add: step_call_def LLMText JDict)
            let ?step = "\<lparr>step_number = n, thought = (case map_of kvs ''thought'' of None \<Rightarrow> JStr [] | Some v \<Rightarrow> v),
                           action = ?act, action_input = ?inp, observation = None, step_error = None\<rparr>"
            obtain eo step1 tu src where tt:
              "try_tool env reg (clock st) a ?inp ?step (st_tools_used st) (st_sources st) = (eo, step1, tu, src)"
              by (metis prod.exhaust)
            from try_tool_tracks [OF wf reg tt]
            have tr: "tu = st_tools_used st @ ids_at env reg (clock st)"
              "src = st_sources st @ urls_at env reg (clock st)"
              by (simp_all add: ids_at_def urls_at_def sc)
            from it LLMText True JDict nfa Inr kn a tt
            have "(oc = Continue \<and> st_tools_used st' = tu \<and> st_sources st' = src)
                \<or> (\<exists>e. oc = Raise e)"
              by (auto simp: react_iteration_def Let_def split: option.splits if_splits)
            with tr show ?thesis by auto
          qed
        qed
      qed
    qed (use it LLMText True in \<open>auto simp: react_iteration_def Let_def\<close>)
  qed
qed


lemma react_steps_clock_mono:
  "clock st \<le> clock (snd (react_steps env reg N ns st))"
proof (induction ns arbitrary: st)
  case Nil
  then show ?case by simp
next
  case (Cons n ns)
  obtain o1 st1 where it: "react_iteration env reg n st = (o1, st1)"
    by (cases "react_iteration env reg n st")
  have c1: "clock st1 = Suc (clock st)"
    using react_iteration_clock [of env reg n st] it by simp
  show ?case
  proof (cases o1)
    case Continue
    then show ?thesis using it Cons.IH [of st1] c1 by simp
  next
    case (Return r)
    then show ?thesis using it c1 by simp
  next
    case (Raise e)
    then show ?thesis using it c1 by simp
  qed
qed

lemma used_ids_step: "k < c' \<Longrightarrow> used_ids env reg k c' = ids_at env reg k @ used_ids env reg (Suc k) c'"
  by (simp add: used_ids_def upt_conv_Cons)

lemma seen_urls_step: "k < c' \<Longrightarrow> seen_urls env reg k c' = urls_at env reg k @ seen_urls env reg (Suc k) c'"
  by (simp add: seen_urls_def upt_conv_Cons)

lemma react_steps_tracks:
  assumes wf: "tool_data_wf env" and reg: "reg = register_all_tools reg0"
  shows "react_steps env reg N ns st = (Inr r, st') \<Longrightarrow> result_success r \<Longrightarrow>
     tools_used r = remdups (st_tools_used st @ used_ids env reg (clock st) (clock st'))
     \<and> sources r = st_sources st @ seen_urls env reg (clock st) (clock st')"
proof (induction ns arbitrary: st)
  case Nil
  then show ?case by auto
next
  case (Cons n ns)
  obtain o1 st1 where it: "react_iteration env reg n st = (o1, st1)"
    by (cases "react_iteration env reg n st")
  have c1: "clock st1 = Suc (clock st)"
    using react_iteration_clock [of env reg n st] it by simp
  note tr = iteration_tracks [OF wf reg it]
  show ?case
  proof (cases o1)
    case Continue
    then have rest: "react_steps env reg N ns st1 = (Inr r, st')" using Cons.prems(1) it by simp
    from react_steps_clock_mono [of st1 env reg N ns] rest c1 have lt: "clock st < clock st'" by simp
    from tr Continue have acc: "st_tools_used st1 = st_tools_used st @ ids_at env reg (clock st)"
      "st_sources st1 = st_sources st @ urls_at env reg (clock st)" by simp_all
    from Cons.IH [OF rest Cons.prems(2)] show ?thesis
      unfolding acc c1 used_ids_step [OF lt] seen_urls_step [OF lt] by simp
  next
    case (Return r')
    then have eq: "r' = r" "st1 = st'" using Cons.prems(1) it by simp_all
    with tr Return Cons.prems(2)
    have "tools_used r = remdups (st_tools_used st)" "sources r = st_sources st"
      "ids_at env reg (clock st) = []" "urls_at env reg (clock st) = []" by simp_all
    moreover have "clock st' = Suc (clock st)" using eq c1 by simp
    ultimately show ?thesis by (simp add: used_ids_def seen_urls_def)
  next
    case (Raise e)
    then show ?thesis using Cons.prems(1) it by simp
  qed
qed

text \<open>
  Claim C9. For every successful Loop run (with capability payloads of the shape the
  capabilities build), the returned \<open>tools_used\<close> is the list of identifiers of the
  capability calls that succeeded, with duplicates removed only in the result: it has no
  repetition and the same members as the identifiers used, a ticker extraction counting
  as \<open>ticker_extractor:method\<close>. The returned \<open>sources\<close> is the concatenation, in the
  order of the iterations and with repetitions, of the (non-empty) article URLs of every
  successful news call.
\<close>

theorem loop_usage_and_sources:
  assumes "tool_data_wf env" "run_react_loop env reg0 N c = (Inr r, c')" "result_success r"
  shows "tools_used r = remdups (used_ids env (register_all_tools reg0) c c')
     \<and> set (tools_used r) = set (used_ids env (register_all_tools reg0) c c')
     \<and> distinct (tools_used r)
     \<and> sources r = seen_urls env (register_all_tools reg0) c c'"
proof -
  let ?st0 = "\<lparr>clock = c, st_steps = [], st_tools_used = [], st_sources = []\<rparr>"
  let ?reg = "register_all_tools reg0"
  obtain out st' where rs: "react_steps env ?reg N [1..N] ?st0 = (out, st')"
    by (cases "react_steps env ?reg N [1..N] ?st0")
  with assms(2) have "out = Inr r" "clock st' = c'" by (simp_all add: run_react_loop_def)
  with rs have "react_steps env ?reg N [1..N] ?st0 = (Inr r, st')" by simp
  from react_steps_tracks [OF assms(1) refl this assms(3)] \<open>clock st' = c'\<close>
  show ?thesis by simp
qed

theorem loop_usage_and_sources_witness:
  "tool_data_wf (ref_env analyst_llm news_tools)
   \<and> (\<exists>r. run_react_loop (ref_env analyst_llm news_tools) [] 10 0 = (Inr r, 5)
          \<and> result_success r
          \<and> tools_used r = [''ticker_extractor:regex'', ''news_retriever'']
          \<and> sources r = [JStr ''https://n.example/a'', JStr ''https://n.example/b'',
                          JStr ''https://n.example/a'', JStr ''https://n.example/b''])
   \<and> used_ids (ref_env analyst_llm news_tools) (register_all_tools []) 0 5 =
       [''news_retriever'', ''ticker_extractor:regex'', ''news_retriever'']
   \<and> seen_urls (ref_env analyst_llm news_tools) (register_all_tools []) 0 5 =
       [JStr ''https://n.example/a'', JStr ''https://n.example/b'',
        JStr ''https://n.example/a'', JStr ''https://n.example/b'']"
proof -
  let ?env = "ref_env analyst_llm news_tools"
  have wf: "tool_data_wf ?env"
    by (auto simp: tool_data_wf_def ref_env_def news_tools_def news_data_wf_def)
  have ids: "used_ids ?env (register_all_tools []) 0 5 =
      [''news_retriever'', ''ticker_extractor:regex'', ''news_retriever'']"
    by code_simp
  have urls: "seen_urls ?env (register_all_tools []) 0 5 =
      [JStr ''https://n.example/a'', JStr ''https://n.example/b'',
       JStr ''https://n.example/a'', JStr ''https://n.example/b'']"
    by code_simp
  have ev: "case run_react_loop ?env [] 10 0 of
              (Inl e, c') \<Rightarrow> False
            | (Inr r, c') \<Rightarrow> c' = 5 \<and> result_success r"
    by code_simp
  then obtain r where run: "run_react_loop ?env [] 10 0 = (Inr r, 5)" and ok: "result_success r"
    by (auto split: prod.splits sum.splits)
  from loop_usage_and_sources [OF wf run ok]
  have "tools_used r = remdups (used_ids ?env (register_all_tools []) 0 5)"
    "sources r = seen_urls ?env (register_all_tools []) 0 5" by simp_all
  then have res: "tools_used r = [''ticker_extractor:regex'', ''news_retriever'']"
    "sources r = [JStr ''https://n.example/a'', JStr ''https://n.example/b'',
                  JStr ''https://n.example/a'', JStr ''https://n.example/b'']"
    unfolding ids urls by simp_all
  from run ok res have ex: "\<exists>r. run_react_loop ?env [] 10 0 = (Inr r, 5)
          \<and> result_success r
          \<and> tools_used r = [''ticker_extractor:regex'', ''news_retriever'']
          \<and> sources r = [JStr ''https://n.example/a'', JStr ''https://n.example/b'',
                          JStr ''https://n.example/a'', JStr ''https://n.example/b'']"
    by blast
  show ?thesis by (intro conjI wf ex ids urls)
qed

end
